theory Spec2Isabelle
  imports Complex_Main
begin

section \<open>JavaScript numbers\<close>

text \<open>
  The calculator works on JavaScript numbers, the values of binary64. A number is
  modelled as \<open>NaN\<close>, one of the two infinities, or a finite value \<open>Fin x\<close>, where \<open>x\<close> is
  the real number that the binary64 value denotes. Each arithmetic operation computes the
  exact real result and rounds it to binary64 with \<open>fl\<close>. Comparisons with \<open>NaN\<close> are
  false, \<open>Math.max\<close> and \<open>Math.min\<close> propagate \<open>NaN\<close>, and \<open>NaN\<close> and \<open>0\<close> are
  falsy. The sign of zero is not represented: no operation of the source tells \<open>-0\<close>
  from \<open>+0\<close>.
\<close>

datatype jsnum = NaN | NInf | Fin real | PInf

subsection \<open>Rounding to binary64\<close>

text \<open>
  The binary exponent of a positive number: the \<open>e\<close> with \<open>2^e \<le> a < 2^(e+1)\<close>, searched
  from 0 in steps of one, and -1022 below the normal range. The search is used between
  \<open>2^-1022\<close> and \<open>2^1024\<close>, where 1100 steps are more than it needs.
\<close>

fun expoSearch :: "nat \<Rightarrow> real \<Rightarrow> int \<Rightarrow> int" where
  "expoSearch 0 x e = e"
| "expoSearch (Suc n) x e =
     (if 2 \<le> x then expoSearch n (x / 2) (e + 1)
      else if x < 1 then expoSearch n (x * 2) (e - 1)
      else e)"

definition expo :: "real \<Rightarrow> int" where
  "expo a = (if a < 2 powi (- 1022) then - 1022 else expoSearch 1100 a 0)"

text \<open>The nearest integer, the even one on a tie.\<close>

definition roundHalfEven :: "real \<Rightarrow> int" where
  "roundHalfEven y =
     (let f = \<lfloor>y\<rfloor>; d = y - of_int f
      in if d < 1 / 2 then f else if 1 / 2 < d then f + 1 else if even f then f else f + 1)"

text \<open>The spacing of the binary64 values at a positive number: 53 significant bits.\<close>

definition ulp :: "real \<Rightarrow> real" where
  "ulp a = 2 powi (expo a - 52)"

definition roundToUlp :: "real \<Rightarrow> real" where
  "roundToUlp x = of_int (roundHalfEven (x / ulp \<bar>x\<bar>)) * ulp \<bar>x\<bar>"

text \<open>
  The binary64 value of a real number: round to nearest, ties to even, with gradual
  underflow and with overflow to an infinity from \<open>2^1024\<close> on.
\<close>

definition fl :: "real \<Rightarrow> jsnum" where
  "fl x =
     (if x = 0 then Fin 0
      else if 2 ^ 1024 \<le> \<bar>x\<bar> then (if 0 < x then PInf else NInf)
      else if 2 ^ 1024 \<le> \<bar>roundToUlp x\<bar> then (if 0 < x then PInf else NInf)
      else Fin (roundToUlp x))"

text \<open>
  A decimal literal of the source denotes the binary64 value nearest to it. Whole numbers
  of the source are written \<open>Fin n\<close>: they are binary64 values themselves.
\<close>

definition lit :: "real \<Rightarrow> jsnum" where
  "lit d = fl d"

subsection \<open>Operations\<close>

definition isNaN :: "jsnum \<Rightarrow> bool" where
  "isNaN x = (x = NaN)"

definition truthy :: "jsnum \<Rightarrow> bool" where
  "truthy x = (x \<noteq> NaN \<and> x \<noteq> Fin 0)"

text \<open>\<open>a || b\<close> on numbers.\<close>

definition numOr :: "jsnum \<Rightarrow> jsnum \<Rightarrow> jsnum" where
  "numOr a b = (if truthy a then a else b)"

text \<open>\<open>a < b\<close>, \<open>a > b\<close>, \<open>a <= b\<close>, \<open>a >= b\<close>.\<close>

definition jlt :: "jsnum \<Rightarrow> jsnum \<Rightarrow> bool" where
  "jlt a b =
     (case (a, b) of
        (NaN, _) \<Rightarrow> False
      | (_, NaN) \<Rightarrow> False
      | (Fin x, Fin y) \<Rightarrow> x < y
      | (NInf, NInf) \<Rightarrow> False
      | (NInf, _) \<Rightarrow> True
      | (PInf, _) \<Rightarrow> False
      | (Fin x, NInf) \<Rightarrow> False
      | (Fin x, PInf) \<Rightarrow> True)"

definition jgt :: "jsnum \<Rightarrow> jsnum \<Rightarrow> bool" where
  "jgt a b = jlt b a"

definition jle :: "jsnum \<Rightarrow> jsnum \<Rightarrow> bool" where
  "jle a b = (a \<noteq> NaN \<and> b \<noteq> NaN \<and> \<not> jlt b a)"

definition jge :: "jsnum \<Rightarrow> jsnum \<Rightarrow> bool" where
  "jge a b = jle b a"

text \<open>\<open>Math.max\<close> and \<open>Math.min\<close> of two arguments.\<close>

definition Math_max :: "jsnum \<Rightarrow> jsnum \<Rightarrow> jsnum" where
  "Math_max a b = (if a = NaN \<or> b = NaN then NaN else if jlt a b then b else a)"

definition Math_min :: "jsnum \<Rightarrow> jsnum \<Rightarrow> jsnum" where
  "Math_min a b = (if a = NaN \<or> b = NaN then NaN else if jlt b a then b else a)"

definition jneg :: "jsnum \<Rightarrow> jsnum" where
  "jneg a = (case a of NaN \<Rightarrow> NaN | NInf \<Rightarrow> PInf | PInf \<Rightarrow> NInf | Fin x \<Rightarrow> Fin (- x))"

definition jadd :: "jsnum \<Rightarrow> jsnum \<Rightarrow> jsnum" where
  "jadd a b =
     (case (a, b) of
        (NaN, _) \<Rightarrow> NaN
      | (_, NaN) \<Rightarrow> NaN
      | (Fin x, Fin y) \<Rightarrow> fl (x + y)
      | (PInf, NInf) \<Rightarrow> NaN
      | (NInf, PInf) \<Rightarrow> NaN
      | (PInf, _) \<Rightarrow> PInf
      | (NInf, _) \<Rightarrow> NInf
      | (Fin x, i) \<Rightarrow> i)"

definition jsub :: "jsnum \<Rightarrow> jsnum \<Rightarrow> jsnum" where
  "jsub a b = jadd a (jneg b)"

definition jmul :: "jsnum \<Rightarrow> jsnum \<Rightarrow> jsnum" where
  "jmul a b =
     (case (a, b) of
        (NaN, _) \<Rightarrow> NaN
      | (_, NaN) \<Rightarrow> NaN
      | (Fin x, Fin y) \<Rightarrow> fl (x * y)
      | (Fin x, i) \<Rightarrow> (if x = 0 then NaN else if 0 < x then i else jneg i)
      | (i, Fin y) \<Rightarrow> (if y = 0 then NaN else if 0 < y then i else jneg i)
      | (PInf, PInf) \<Rightarrow> PInf
      | (NInf, NInf) \<Rightarrow> PInf
      | (PInf, NInf) \<Rightarrow> NInf
      | (NInf, PInf) \<Rightarrow> NInf)"

text \<open>
  Division. A zero divisor is taken as \<open>+0\<close>; no division of the source can reach one
  (each divisor is a positive constant or is guarded by a comparison).
\<close>

definition jdiv :: "jsnum \<Rightarrow> jsnum \<Rightarrow> jsnum" where
  "jdiv a b =
     (case (a, b) of
        (NaN, _) \<Rightarrow> NaN
      | (_, NaN) \<Rightarrow> NaN
      | (Fin x, Fin y) \<Rightarrow>
          (if y = 0 then (if x = 0 then NaN else if 0 < x then PInf else NInf)
           else fl (x / y))
      | (Fin x, i) \<Rightarrow> Fin 0
      | (i, Fin y) \<Rightarrow> (if 0 \<le> y then i else jneg i)
      | (_, _) \<Rightarrow> NaN)"

definition Math_ceil :: "jsnum \<Rightarrow> jsnum" where
  "Math_ceil a = (case a of Fin x \<Rightarrow> Fin (of_int \<lceil>x\<rceil>) | _ \<Rightarrow> a)"

definition Math_floor :: "jsnum \<Rightarrow> jsnum" where
  "Math_floor a = (case a of Fin x \<Rightarrow> Fin (of_int \<lfloor>x\<rfloor>) | _ \<Rightarrow> a)"

text \<open>
  \<open>Math.ceil\<close> and \<open>Math.floor\<close> of a binary64 value are binary64 values, and so is
  \<open>Math.round\<close>, the nearest whole number, with a tie going towards plus infinity.
\<close>

definition Math_round :: "jsnum \<Rightarrow> jsnum" where
  "Math_round a = (case a of Fin x \<Rightarrow> Fin (of_int \<lfloor>x + 1 / 2\<rfloor>) | _ \<Rightarrow> a)"

text \<open>\<open>Math.sqrt\<close> as the correctly rounded square root.\<close>

definition Math_sqrt :: "jsnum \<Rightarrow> jsnum" where
  "Math_sqrt a =
     (case a of
        NaN \<Rightarrow> NaN
      | NInf \<Rightarrow> NaN
      | PInf \<Rightarrow> PInf
      | Fin x \<Rightarrow> (if x < 0 then NaN else fl (sqrt x)))"

text \<open>
  \<open>parseFloat(x.toFixed(2))\<close> on values: \<open>toFixed(2)\<close> picks the integer \<open>n\<close> with
  \<open>n / 100\<close> nearest to the magnitude of the exact value \<open>x\<close> (the larger one on a tie),
  keeps the sign and prints \<open>n / 100\<close> in decimal; \<open>parseFloat\<close> reads the printed
  text as the binary64 value nearest to it. From \<open>10^21\<close> on \<open>toFixed\<close> prints the
  number itself, which \<open>parseFloat\<close> reads back.
\<close>

definition toFixed2 :: "jsnum \<Rightarrow> jsnum" where
  "toFixed2 a =
     (case a of
        Fin x \<Rightarrow>
          (if 10 ^ 21 \<le> \<bar>x\<bar> then Fin x
           else fl (sgn x * of_int \<lfloor>\<bar>x\<bar> * 100 + 1 / 2\<rfloor> / 100))
      | _ \<Rightarrow> a)"

text \<open>A number is a whole number.\<close>

definition isInteger :: "jsnum \<Rightarrow> bool" where
  "isInteger a = (case a of Fin x \<Rightarrow> x = of_int \<lfloor>x\<rfloor> | _ \<Rightarrow> False)"

section \<open>Strings to numbers\<close>

text \<open>
  Strings are byte lists. White space is the ASCII white space of \<open>StrWhiteSpaceChar\<close>
  (tab, line feed, vertical tab, form feed, carriage return, space); the white space
  beyond ASCII is not represented.
\<close>

definition isWhiteSpace :: "char \<Rightarrow> bool" where
  "isWhiteSpace c = List.member [CHR 0x09, CHR 0x0A, CHR 0x0B, CHR 0x0C, CHR 0x0D, CHR '' ''] c"

definition isDigit :: "char \<Rightarrow> bool" where
  "isDigit c = List.member ''0123456789'' c"

definition digitVal :: "char \<Rightarrow> nat" where
  "digitVal c = of_char c - 48"

definition digitsVal :: "string \<Rightarrow> nat" where
  "digitsVal ds = foldl (\<lambda>acc c. 10 * acc + digitVal c) 0 ds"

text \<open>A leading sign: whether it is a minus, and the text after it.\<close>

definition scanSign :: "string \<Rightarrow> bool \<times> string" where
  "scanSign s =
     (case s of
        [] \<Rightarrow> (False, s)
      | c # r \<Rightarrow>
          if c = CHR ''-'' then (True, r)
          else if c = CHR ''+'' then (False, r)
          else (False, s))"

text \<open>
  \<open>ExponentPart\<close>: the exponent and the text after it, or exponent \<open>0\<close> and the text
  unchanged when no exponent part starts here.
\<close>

definition scanExponent :: "string \<Rightarrow> int \<times> string" where
  "scanExponent s =
     (case s of
        [] \<Rightarrow> (0, s)
      | c # r \<Rightarrow>
          if c = CHR ''e'' \<or> c = CHR ''E'' then
            (let (neg, d) = scanSign r; ds = takeWhile isDigit d
             in if ds = [] then (0, s)
                else ((if neg then - int (digitsVal ds) else int (digitsVal ds)),
                      dropWhile isDigit d))
          else (0, s))"

definition scale10 :: "real \<Rightarrow> int \<Rightarrow> real" where
  "scale10 v e = (if 0 \<le> e then v * 10 ^ nat e else v / 10 ^ nat (- e))"

text \<open>
  The longest prefix that is a \<open>StrUnsignedDecimalLiteral\<close> other than \<open>Infinity\<close>:
  its value and the text after it, or nothing.
\<close>

definition scanDecimal :: "string \<Rightarrow> (real \<times> string) option" where
  "scanDecimal s =
     (let ip = takeWhile isDigit s; r1 = dropWhile isDigit s;
          dot = (r1 \<noteq> [] \<and> hd r1 = CHR ''.'');
          fp = (if dot then takeWhile isDigit (tl r1) else []);
          r2 = (if dot then dropWhile isDigit (tl r1) else r1)
      in if ip = [] \<and> fp = [] then None
         else
           (let (e, r3) = scanExponent r2;
                m = real (digitsVal ip) + real (digitsVal fp) / 10 ^ length fp
            in Some (scale10 m e, r3)))"

definition startsWith :: "string \<Rightarrow> string \<Rightarrow> bool" where
  "startsWith s p = (take (length p) s = p)"

text \<open>
  \<open>parseFloat\<close>: leading white space, a sign, then the longest decimal literal, read as
  the binary64 value nearest to it.
\<close>

definition parseFloat :: "string \<Rightarrow> jsnum" where
  "parseFloat s =
     (let (neg, u) = scanSign (dropWhile isWhiteSpace s)
      in if startsWith u ''Infinity'' then (if neg then NInf else PInf)
         else
           (case scanDecimal u of
              None \<Rightarrow> NaN
            | Some (v, r) \<Rightarrow> fl (if neg then - v else v)))"

text \<open>
  \<open>Number(s)\<close> on a string: white space is trimmed on both sides, the empty text is
  \<open>0\<close>, and the whole of the rest must be one numeric literal (decimal, or an unsigned
  integer in base 16, 8 or 2 after \<open>0x\<close>, \<open>0o\<close>, \<open>0b\<close>).
\<close>

definition trim :: "string \<Rightarrow> string" where
  "trim s = rev (dropWhile isWhiteSpace (rev (dropWhile isWhiteSpace s)))"

definition radixDigit :: "nat \<Rightarrow> char \<Rightarrow> nat option" where
  "radixDigit b c =
     (let n = of_char c;
          v = (if 48 \<le> n \<and> n \<le> 57 then Some (n - 48)
               else if 97 \<le> n \<and> n \<le> 102 then Some (n - 87)
               else if 65 \<le> n \<and> n \<le> 70 then Some (n - 55)
               else None)
      in case v of None \<Rightarrow> None | Some d \<Rightarrow> if d < b then Some d else None)"

definition radixVal :: "nat \<Rightarrow> string \<Rightarrow> jsnum" where
  "radixVal b ds =
     (if ds \<noteq> [] \<and> list_all (\<lambda>c. radixDigit b c \<noteq> None) ds
      then fl (real (foldl (\<lambda>acc c. b * acc + the (radixDigit b c)) 0 ds))
      else NaN)"

definition StringToNumber :: "string \<Rightarrow> jsnum" where
  "StringToNumber s =
     (let t = trim s
      in if t = [] then Fin 0
         else if startsWith t ''0x'' \<or> startsWith t ''0X'' then radixVal 16 (drop 2 t)
         else if startsWith t ''0o'' \<or> startsWith t ''0O'' then radixVal 8 (drop 2 t)
         else if startsWith t ''0b'' \<or> startsWith t ''0B'' then radixVal 2 (drop 2 t)
         else
           (let (neg, u) = scanSign t
            in if u = ''Infinity'' then (if neg then NInf else PInf)
               else
                 (case scanDecimal u of
                    Some (v, []) \<Rightarrow> fl (if neg then - v else v)
                  | _ \<Rightarrow> NaN)))"

section \<open>Reference tables\<close>

record NozzleData =
  rate :: jsnum
  label :: string
  optimalPsi :: jsnum
  efficiency :: jsnum

definition NOZZLE_DATA :: "(string \<times> NozzleData) list" where
  "NOZZLE_DATA =
     [(''Fixed Spray (Generic)'',
         \<lparr>rate = lit 1.5, label = ''Fixed Spray (Generic)'', optimalPsi = Fin 30, efficiency = lit 0.70\<rparr>),
      (''Rainbird 1800 / HE-VAN'',
         \<lparr>rate = lit 1.6, label = ''Rainbird 1800 / HE-VAN'', optimalPsi = Fin 30, efficiency = lit 0.75\<rparr>),
      (''Hunter Pro-Spray'',
         \<lparr>rate = lit 1.5, label = ''Hunter Pro-Spray'', optimalPsi = Fin 30, efficiency = lit 0.75\<rparr>),
      (''Hunter MP Rotator (Standard)'',
         \<lparr>rate = lit 0.4, label = ''Hunter MP Rotator (Standard)'', optimalPsi = Fin 40, efficiency = lit 0.80\<rparr>),
      (''Hunter MP Rotator (MP800 SR)'',
         \<lparr>rate = lit 0.8, label = ''Hunter MP Rotator (MP800 SR)'', optimalPsi = Fin 40, efficiency = lit 0.80\<rparr>),
      (''Rainbird R-VAN'',
         \<lparr>rate = lit 0.6, label = ''Rainbird R-VAN'', optimalPsi = Fin 45, efficiency = lit 0.75\<rparr>),
      (''Rotor (Gear Drive - PGP/5000)'',
         \<lparr>rate = lit 0.5, label = ''Rotor (Gear Drive - PGP/5000)'', optimalPsi = Fin 45, efficiency = lit 0.80\<rparr>),
      (''Rotor (Low Angle)'',
         \<lparr>rate = lit 0.75, label = ''Rotor (Low Angle)'', optimalPsi = Fin 45, efficiency = lit 0.80\<rparr>),
      (''Drip Line (0.9 GPH - 12in Spacing)'',
         \<lparr>rate = lit 0.8, label = ''Drip Line (0.9 GPH @ 12in)'', optimalPsi = Fin 30, efficiency = lit 0.90\<rparr>),
      (''Drip Line (0.6 GPH - 12in Spacing)'',
         \<lparr>rate = lit 0.5, label = ''Drip Line (0.6 GPH @ 12in)'', optimalPsi = Fin 30, efficiency = lit 0.90\<rparr>),
      (''Drip Line (0.4 GPH - 12in Spacing)'',
         \<lparr>rate = lit 0.35, label = ''Drip Line (0.4 GPH @ 12in)'', optimalPsi = Fin 30, efficiency = lit 0.90\<rparr>),
      (''Bubbler (Flood)'',
         \<lparr>rate = Fin 12.0, label = ''Bubbler (High Flow)'', optimalPsi = Fin 30, efficiency = lit 0.85\<rparr>)]"

definition SOIL_RATES :: "(string \<times> jsnum) list" where
  "SOIL_RATES =
     [(''Sand'', Fin 2.0), (''Loamy Sand'', lit 1.5), (''Sandy Loam'', lit 0.8),
      (''Loam'', lit 0.5), (''Clay Loam'', lit 0.25), (''Silty Clay'', lit 0.15), (''Clay'', lit 0.1)]"

definition SOIL_SOAK_TIMES :: "(string \<times> jsnum) list" where
  "SOIL_SOAK_TIMES =
     [(''Sand'', Fin 0), (''Loamy Sand'', Fin 0), (''Sandy Loam'', Fin 15),
      (''Loam'', Fin 30), (''Clay Loam'', Fin 45), (''Silty Clay'', Fin 60), (''Clay'', Fin 60)]"

definition SLOPE_FACTORS :: "(string \<times> jsnum) list" where
  "SLOPE_FACTORS =
     [(''0-15%'', Fin 1.0), (''15-30%'', lit 0.7), (''30-45%'', lit 0.5), (''>45%'', lit 0.3)]"

definition ZONE_FACTORS :: "(string \<times> jsnum) list" where
  "ZONE_FACTORS =
     [(''Cool Season Turf Grass'', lit 0.95), (''Warm Season Turf Grass'', lit 0.7),
      (''All Plants'', lit 0.5), (''Trees'', lit 0.6), (''Perennials'', lit 0.5), (''Drip'', lit 0.5)]"

definition SUNLIGHT_FACTORS :: "(string \<times> jsnum) list" where
  "SUNLIGHT_FACTORS = [(''Direct Sun'', Fin 1.0), (''Partial Sun'', lit 0.9), (''Shade'', lit 0.8)]"

text \<open>
  The tables are object literals, so a key that is not an entry of the table is looked up
  in \<open>Object.prototype\<close>. These are its property names; the value found there is a
  function (the prototype object itself for \<open>__proto__\<close>).
\<close>

definition Object_prototype_keys :: "string list" where
  "Object_prototype_keys =
     [''constructor'', ''__defineGetter__'', ''__defineSetter__'', ''hasOwnProperty'',
      ''__lookupGetter__'', ''__lookupSetter__'', ''isPrototypeOf'', ''propertyIsEnumerable'',
      ''toString'', ''valueOf'', ''__proto__'', ''toLocaleString'']"

text \<open>
  \<open>TABLE[key] || d\<close> on a table of numbers. A key that is found nowhere reads as
  \<open>undefined\<close>, which is falsy, as is an entry \<open>0\<close>. An inherited property is an object,
  which is truthy; every arithmetic operation and comparison of the source converts it
  to \<open>NaN\<close>, and it is represented by \<open>NaN\<close>, also where the source stores it as it
  is (the soak time of the result).
\<close>

definition lookupOr :: "(string \<times> jsnum) list \<Rightarrow> string \<Rightarrow> jsnum \<Rightarrow> jsnum" where
  "lookupOr tbl k d =
     (case map_of tbl k of
        Some v \<Rightarrow> numOr v d
      | None \<Rightarrow> if List.member Object_prototype_keys k then NaN else d)"

text \<open>
  \<open>NOZZLE_DATA[key]\<close>: \<open>None\<close> is \<open>undefined\<close>. An inherited property is an object whose
  \<open>rate\<close>, \<open>optimalPsi\<close> and \<open>efficiency\<close> are \<open>undefined\<close>: falsy, and \<open>NaN\<close> in
  arithmetic and comparisons, so they are represented by \<open>NaN\<close>.
\<close>

definition inheritedObject :: NozzleData where
  "inheritedObject = \<lparr>rate = NaN, label = [], optimalPsi = NaN, efficiency = NaN\<rparr>"

definition nozzleLookup :: "string \<Rightarrow> NozzleData option" where
  "nozzleLookup k =
     (case map_of NOZZLE_DATA k of
        Some nozzle \<Rightarrow> Some nozzle
      | None \<Rightarrow> if List.member Object_prototype_keys k then Some inheritedObject else None)"

section \<open>Data model\<close>

text \<open>
  A form field that holds \<open>number | ''\<close>: the declared type of \<open>pressure\<close>. The
  change handler stores the text of the input element there, so both a text and a
  number are values of the field.
\<close>

datatype numOrStr = Str string | Num jsnum

definition truthyV :: "numOrStr \<Rightarrow> bool" where
  "truthyV v = (case v of Str s \<Rightarrow> s \<noteq> [] | Num n \<Rightarrow> truthy n)"

text \<open>\<open>Number(v)\<close>.\<close>

definition Number :: "numOrStr \<Rightarrow> jsnum" where
  "Number v = (case v of Str s \<Rightarrow> StringToNumber s | Num n \<Rightarrow> n)"

text \<open>An optional text field is \<open>None\<close> when the property is absent (\<open>undefined\<close>).\<close>

record PlantFormData =
  customZoneName :: "string option"
  zoneType :: string
  zoneAreaSqFt :: "string option"
  mowingHeight :: "string option"
  location :: string
  zipCode :: string
  month :: string
  estWeeklyEt :: "string option"
  estWeeklyRain :: "string option"
  nozzleType :: string
  pressure :: numOrStr
  efficiency :: "string option"
  soilType :: string
  slope :: string
  sunlight :: string
  waterSource :: string
  waterPrice :: "string option"

record LiveCalculation =
  precipRate :: jsnum
  weeklyTotalMinutes :: jsnum
  suggestedFrequency :: jsnum
  dailyRunTime :: jsnum
  maxRunTime :: jsnum
  recommendedSoakTime :: jsnum
  cyclesPerDay :: jsnum
  minutesPerCycle :: jsnum
  inchesAppliedPerDay :: jsnum
  isEstData :: bool
  efficiency :: jsnum

text \<open>\<open>s || d\<close> on an optional text: absent and empty are falsy.\<close>

definition strOr :: "string option \<Rightarrow> string \<Rightarrow> string" where
  "strOr s d = (case s of None \<Rightarrow> d | Some t \<Rightarrow> if t = [] then d else t)"

text \<open>\<open>s.includes(p)\<close>: \<open>p\<close> occurs in \<open>s\<close>.\<close>

fun str_includes :: "string \<Rightarrow> string \<Rightarrow> bool" where
  "str_includes [] p = (p = [])"
| "str_includes (c # cs) p = (startsWith (c # cs) p \<or> str_includes cs p)"

section \<open>The hydraulic calculation of \<open>InputForm\<close>\<close>

text \<open>
  The body of the effect hook, one definition for each group of local constants, named
  after the constant it computes. \<open>nozzle\<close> is the object that the nozzle lookup gave.
\<close>

definition soilInfiltration :: "PlantFormData \<Rightarrow> jsnum" where
  "soilInfiltration formData = lookupOr SOIL_RATES (soilType formData) (lit 0.5)"

definition slopeFactor :: "PlantFormData \<Rightarrow> jsnum" where
  "slopeFactor formData = lookupOr SLOPE_FACTORS (slope formData) (Fin 1.0)"

definition sunFactor :: "PlantFormData \<Rightarrow> jsnum" where
  "sunFactor formData = lookupOr SUNLIGHT_FACTORS (sunlight formData) (Fin 1.0)"

definition calc_efficiency :: "NozzleData \<Rightarrow> PlantFormData \<Rightarrow> jsnum" where
  "calc_efficiency nozzle formData =
     (let efficiencyInput = parseFloat (strOr (PlantFormData.efficiency formData) [])
      in if \<not> isNaN efficiencyInput then jdiv efficiencyInput (Fin 100)
         else numOr (NozzleData.efficiency nozzle) (lit 0.75))"

definition calc_precipRate :: "NozzleData \<Rightarrow> numOrStr \<Rightarrow> jsnum" where
  "calc_precipRate nozzle pressure_in =
     (if truthyV pressure_in then
        (let actualPsi = Number pressure_in;
             optimalPsi = NozzleData.optimalPsi nozzle
         in if jgt actualPsi (Fin 0) then
              (let pressureMultiplier = Math_sqrt (jdiv actualPsi optimalPsi);
                   clampedMultiplier = Math_min (Math_max pressureMultiplier (lit 0.5)) (lit 1.5)
               in toFixed2 (jmul (rate nozzle) clampedMultiplier))
            else rate nozzle)
      else rate nozzle)"

definition userEt :: "PlantFormData \<Rightarrow> jsnum" where
  "userEt formData = parseFloat (strOr (estWeeklyEt formData) ''0'')"

definition calc_netWeeklyInches :: "PlantFormData \<Rightarrow> jsnum" where
  "calc_netWeeklyInches formData =
     (let baseEt = numOr (userEt formData) (lit 1.25);
          plantFactor = lookupOr ZONE_FACTORS (zoneType formData) (lit 0.5);
          rainOffset = parseFloat (strOr (estWeeklyRain formData) ''0'');
          adjustedEt = jmul (jmul baseEt plantFactor) (sunFactor formData)
      in Math_max (Fin 0) (jsub adjustedEt rainOffset))"

definition calc_weeklyTotalMinutes :: "jsnum \<Rightarrow> jsnum \<Rightarrow> jsnum" where
  "calc_weeklyTotalMinutes netWeeklyInches effectivePr =
     (if jgt effectivePr (Fin 0) then Math_ceil (jmul (jdiv netWeeklyInches effectivePr) (Fin 60))
      else Fin 0)"

definition isSandy :: "PlantFormData \<Rightarrow> bool" where
  "isSandy formData = str_includes (soilType formData) ''Sand''"

definition isTurf :: "PlantFormData \<Rightarrow> bool" where
  "isTurf formData = str_includes (zoneType formData) ''Turf''"

definition calc_mowingHeight :: "PlantFormData \<Rightarrow> jsnum" where
  "calc_mowingHeight formData = parseFloat (strOr (mowingHeight formData) ''3.0'')"

text \<open>The base frequency from soil and water demand.\<close>

definition baseFrequency :: "bool \<Rightarrow> jsnum \<Rightarrow> jsnum" where
  "baseFrequency sandy netWeeklyInches =
     (if sandy then
        (let f = (if jgt netWeeklyInches (lit 0.8) then Fin 4 else Fin 3)
         in if jgt netWeeklyInches (lit 1.5) then Fin 5 else f)
      else if jgt netWeeklyInches (lit 1.4) then Fin 4
      else if jgt netWeeklyInches (lit 0.7) then Fin 3
      else Fin 2)"

text \<open>The mowing height constraint on a turf zone.\<close>

definition mowingConstraint :: "bool \<Rightarrow> jsnum \<Rightarrow> jsnum \<Rightarrow> jsnum" where
  "mowingConstraint turf mowingHeight_in f =
     (if turf then
        (if jlt mowingHeight_in (Fin 2.0) then
           (if jle mowingHeight_in (lit 0.75) then Fin 7
            else if jle mowingHeight_in (lit 1.5) then Math_max f (Fin 5)
            else Math_max f (Fin 4))
         else Math_min f (Fin 4))
      else f)"

definition calc_suggestedFrequency :: "bool \<Rightarrow> bool \<Rightarrow> jsnum \<Rightarrow> jsnum \<Rightarrow> jsnum" where
  "calc_suggestedFrequency sandy turf mowingHeight_in netWeeklyInches =
     Math_max (Fin 1)
       (Math_min (Fin 7) (mowingConstraint turf mowingHeight_in (baseFrequency sandy netWeeklyInches)))"

definition calc_dailyRunTime :: "jsnum \<Rightarrow> jsnum \<Rightarrow> jsnum" where
  "calc_dailyRunTime weeklyTotalMinutes_in suggestedFrequency_in =
     (if jgt suggestedFrequency_in (Fin 0)
      then Math_ceil (jdiv weeklyTotalMinutes_in suggestedFrequency_in)
      else Fin 0)"

definition calc_inchesAppliedPerDay :: "jsnum \<Rightarrow> jsnum \<Rightarrow> jsnum" where
  "calc_inchesAppliedPerDay dailyRunTime_in effectivePr =
     (if jgt dailyRunTime_in (Fin 0)
      then toFixed2 (jmul (jdiv dailyRunTime_in (Fin 60)) effectivePr)
      else Fin 0)"

definition calc_maxRunTime :: "jsnum \<Rightarrow> jsnum \<Rightarrow> jsnum \<Rightarrow> jsnum" where
  "calc_maxRunTime precipRate_in soilInfiltration_in slopeFactor_in =
     (if jgt precipRate_in soilInfiltration_in then
        (let runoffRatio = jdiv soilInfiltration_in precipRate_in
         in Math_max (Fin 3) (Math_floor (jmul (jmul (Fin 60) runoffRatio) slopeFactor_in)))
      else Fin 60)"

definition autoCycles :: "bool \<Rightarrow> jsnum \<Rightarrow> jsnum \<Rightarrow> jsnum" where
  "autoCycles sandy dailyRunTime_in maxRunTime_in =
     (let cyclesPerDayCalc = Math_ceil (jdiv dailyRunTime_in maxRunTime_in);
          isSandCycles = (sandy \<and> jlt cyclesPerDayCalc (Fin 2))
      in if isSandCycles then Fin 2 else cyclesPerDayCalc)"

text \<open>
  The result the hook stores when the nozzle lookup gave an object. \<open>manualCycles\<close> is
  the override state: \<open>None\<close> is \<open>null\<close>.
\<close>

definition calculate :: "NozzleData \<Rightarrow> PlantFormData \<Rightarrow> jsnum option \<Rightarrow> LiveCalculation" where
  "calculate nozzle formData manualCycles =
     (let efficiency_v = calc_efficiency nozzle formData;
          precipRate_v = calc_precipRate nozzle (pressure formData);
          netWeeklyInches = calc_netWeeklyInches formData;
          effectivePr = jmul precipRate_v efficiency_v;
          weeklyTotalMinutes_v = calc_weeklyTotalMinutes netWeeklyInches effectivePr;
          suggestedFrequency_v =
            calc_suggestedFrequency (isSandy formData) (isTurf formData)
              (calc_mowingHeight formData) netWeeklyInches;
          dailyRunTime_v = calc_dailyRunTime weeklyTotalMinutes_v suggestedFrequency_v;
          inchesAppliedPerDay_v = calc_inchesAppliedPerDay dailyRunTime_v effectivePr;
          maxRunTime_v =
            calc_maxRunTime precipRate_v (soilInfiltration formData) (slopeFactor formData);
          finalCyclesPerDay =
            (case manualCycles of
               Some m \<Rightarrow> m
             | None \<Rightarrow> autoCycles (isSandy formData) dailyRunTime_v maxRunTime_v);
          minutesPerCycle_v =
            (if jgt finalCyclesPerDay (Fin 0)
             then Math_ceil (jdiv dailyRunTime_v finalCyclesPerDay) else Fin 0);
          recommendedSoakTime_v =
            (if jgt finalCyclesPerDay (Fin 1)
             then lookupOr SOIL_SOAK_TIMES (soilType formData) (Fin 0) else Fin 0)
      in \<lparr>precipRate = precipRate_v,
          weeklyTotalMinutes = weeklyTotalMinutes_v,
          suggestedFrequency = suggestedFrequency_v,
          dailyRunTime = dailyRunTime_v,
          maxRunTime = maxRunTime_v,
          recommendedSoakTime = recommendedSoakTime_v,
          cyclesPerDay = finalCyclesPerDay,
          minutesPerCycle = minutesPerCycle_v,
          inchesAppliedPerDay = inchesAppliedPerDay_v,
          isEstData = (\<not> truthy (userEt formData)),
          efficiency = efficiency_v\<rparr>)"

text \<open>
  The effect hook. With the four required fields present it reads \<open>nozzle.rate\<close> on
  every path; for a nozzle type that is found nowhere, \<open>nozzle\<close> is \<open>undefined\<close> and the
  read raises a \<open>TypeError\<close>. Without one of the four fields the hook stores \<open>null\<close>.
  The outcome is the error, or the value passed to \<open>setLiveCalc\<close>.
\<close>

datatype error = TypeError

definition requiredPresent :: "PlantFormData \<Rightarrow> bool" where
  "requiredPresent formData =
     (nozzleType formData \<noteq> [] \<and> soilType formData \<noteq> [] \<and> slope formData \<noteq> []
      \<and> zoneType formData \<noteq> [])"

definition useEffect :: "PlantFormData \<Rightarrow> jsnum option \<Rightarrow> error + LiveCalculation option" where
  "useEffect formData manualCycles =
     (if requiredPresent formData then
        (case nozzleLookup (nozzleType formData) of
           None \<Rightarrow> Inl TypeError
         | Some nozzle \<Rightarrow> Inr (Some (calculate nozzle formData manualCycles)))
      else Inr None)"

section \<open>The component state and its handlers\<close>

text \<open>
  The state of \<open>InputForm\<close>: the form data it is given, and its own \<open>liveCalc\<close> and
  \<open>manualCycles\<close> (\<open>None\<close> is \<open>null\<close>).
\<close>

record InputForm =
  formData :: PlantFormData
  liveCalc :: "LiveCalculation option"
  manualCycles :: "jsnum option"

text \<open>
  \<open>{...prev, [name]: value}\<close> for the names of the form's input elements. Another name
  would add a property that nothing reads; the form data is then unchanged.
\<close>

definition setField :: "string \<Rightarrow> string \<Rightarrow> PlantFormData \<Rightarrow> PlantFormData" where
  "setField name_in value_in prev =
     (if name_in = ''customZoneName'' then prev\<lparr>customZoneName := Some value_in\<rparr>
      else if name_in = ''zoneType'' then prev\<lparr>zoneType := value_in\<rparr>
      else if name_in = ''zoneAreaSqFt'' then prev\<lparr>zoneAreaSqFt := Some value_in\<rparr>
      else if name_in = ''mowingHeight'' then prev\<lparr>mowingHeight := Some value_in\<rparr>
      else if name_in = ''location'' then prev\<lparr>location := value_in\<rparr>
      else if name_in = ''zipCode'' then prev\<lparr>zipCode := value_in\<rparr>
      else if name_in = ''month'' then prev\<lparr>month := value_in\<rparr>
      else if name_in = ''estWeeklyEt'' then prev\<lparr>estWeeklyEt := Some value_in\<rparr>
      else if name_in = ''estWeeklyRain'' then prev\<lparr>estWeeklyRain := Some value_in\<rparr>
      else if name_in = ''nozzleType'' then prev\<lparr>nozzleType := value_in\<rparr>
      else if name_in = ''pressure'' then prev\<lparr>pressure := Str value_in\<rparr>
      else if name_in = ''efficiency'' then prev\<lparr>PlantFormData.efficiency := Some value_in\<rparr>
      else if name_in = ''soilType'' then prev\<lparr>soilType := value_in\<rparr>
      else if name_in = ''slope'' then prev\<lparr>slope := value_in\<rparr>
      else if name_in = ''sunlight'' then prev\<lparr>sunlight := value_in\<rparr>
      else if name_in = ''waterSource'' then prev\<lparr>waterSource := value_in\<rparr>
      else if name_in = ''waterPrice'' then prev\<lparr>waterPrice := Some value_in\<rparr>
      else prev)"

text \<open>The decimal numeral of a natural number.\<close>

fun showNat :: "nat \<Rightarrow> string" where
  "showNat n =
     (if n < 10 then [char_of (48 + n)] else showNat (n div 10) @ [char_of (48 + n mod 10)])"

declare showNat.simps [simp del]

text \<open>
  \<open>(nozzle.efficiency * 100).toString()\<close>. For every entry of the nozzle table the
  product is a whole number (70, 75, 80, 85 or 90), printed as its decimal numeral, and
  for an inherited object it is \<open>NaN\<close>; the printing of other numbers is not
  represented.
\<close>

definition efficiencyString :: "NozzleData \<Rightarrow> string" where
  "efficiencyString nozzle =
     (case jmul (NozzleData.efficiency nozzle) (Fin 100) of
        Fin x \<Rightarrow> showNat (nat \<lfloor>x\<rfloor>)
      | NaN \<Rightarrow> ''NaN''
      | _ \<Rightarrow> [])"

definition handleChange :: "string \<Rightarrow> string \<Rightarrow> InputForm \<Rightarrow> InputForm" where
  "handleChange name_in value_in st =
     (if name_in = ''nozzleType'' then
        (let nozzle = nozzleLookup value_in;
             prev = InputForm.formData st
         in st\<lparr>InputForm.formData :=
                 (setField name_in value_in prev)
                   \<lparr>PlantFormData.efficiency :=
                      (case nozzle of
                         Some n \<Rightarrow> Some (efficiencyString n)
                       | None \<Rightarrow> PlantFormData.efficiency prev)\<rparr>,
               manualCycles := None\<rparr>)
      else
        st\<lparr>InputForm.formData := setField name_in value_in (InputForm.formData st),
            manualCycles :=
              (if name_in = ''soilType'' \<or> name_in = ''slope'' then None else manualCycles st)\<rparr>)"

definition handleCycleChange :: "jsnum \<Rightarrow> InputForm \<Rightarrow> InputForm" where
  "handleCycleChange increment st =
     (case liveCalc st of
        None \<Rightarrow> st
      | Some lc \<Rightarrow>
          (let current = (case manualCycles st of Some m \<Rightarrow> m | None \<Rightarrow> cyclesPerDay lc);
               newValue = Math_max (Fin 1) (Math_min (Fin 10) (jadd current increment))
           in st\<lparr>manualCycles := Some newValue\<rparr>))"

text \<open>
  The effect hook runs after a render in which one of its dependencies changed and
  stores its result in \<open>liveCalc\<close>; a \<open>TypeError\<close> leaves no state behind.
\<close>

definition runEffect :: "InputForm \<Rightarrow> error + InputForm" where
  "runEffect st =
     (case useEffect (InputForm.formData st) (manualCycles st) of
        Inl e \<Rightarrow> Inl e
      | Inr r \<Rightarrow> Inr (st\<lparr>liveCalc := r\<rparr>))"

text \<open>The dependency list of the hook: the hook runs when one of these values changes.\<close>

definition effectDeps ::
  "InputForm \<Rightarrow> (string \<times> string \<times> string \<times> string) \<times>
     (string option \<times> string option \<times> numOrStr \<times> string option \<times> string \<times> string option) \<times>
     jsnum option" where
  "effectDeps st =
     (let f = InputForm.formData st
      in ((nozzleType f, soilType f, slope f, zoneType f),
          (estWeeklyEt f, estWeeklyRain f, pressure f, PlantFormData.efficiency f, sunlight f,
           mowingHeight f),
          manualCycles st))"

text \<open>One change event: the handler, then the hook when a dependency changed.\<close>

definition changeEvent :: "string \<Rightarrow> string \<Rightarrow> InputForm \<Rightarrow> error + InputForm" where
  "changeEvent name_in value_in st =
     (let st' = handleChange name_in value_in st
      in if effectDeps st' = effectDeps st then Inr st' else runEffect st')"

text \<open>One click on a cycle button: \<open>handleCycleChange(1)\<close> or \<open>handleCycleChange(-1)\<close>.\<close>

definition cycleEvent :: "jsnum \<Rightarrow> InputForm \<Rightarrow> error + InputForm" where
  "cycleEvent increment st =
     (let st' = handleCycleChange increment st
      in if effectDeps st' = effectDeps st then Inr st' else runEffect st')"

text \<open>
  The parent replaces the form data (\<open>setFormData\<close> of the application: a weather
  estimate, a saved zone opened for editing, a reset); the component keeps its own state.
\<close>

definition propsEvent :: "PlantFormData \<Rightarrow> InputForm \<Rightarrow> error + InputForm" where
  "propsEvent formData' st =
     (let st' = st\<lparr>InputForm.formData := formData'\<rparr>
      in if effectDeps st' = effectDeps st then Inr st' else runEffect st')"

text \<open>
  The values that the nozzle select of the form can hold: the empty value of its first
  option, and the keys of the nozzle table.
\<close>

definition nozzleOptions :: "string list" where
  "nozzleOptions = [] # map fst NOZZLE_DATA"

text \<open>
  The states of the component: the first render with no result and no override, after
  which the hook runs, and then any sequence of events.
\<close>

inductive reachable :: "InputForm \<Rightarrow> bool" where
  mount:
    "runEffect \<lparr>InputForm.formData = formData0, liveCalc = None, manualCycles = None\<rparr> = Inr st
     \<Longrightarrow> reachable st"
| change: "reachable st \<Longrightarrow> changeEvent name_in value_in st = Inr st' \<Longrightarrow> reachable st'"
| cycle:
    "reachable st \<Longrightarrow> increment = Fin 1 \<or> increment = Fin (- 1)
     \<Longrightarrow> cycleEvent increment st = Inr st' \<Longrightarrow> reachable st'"
| props: "reachable st \<Longrightarrow> propsEvent formData' st = Inr st' \<Longrightarrow> reachable st'"

code_pred reachable .

section \<open>The aggregation of \<open>MasterReport\<close>\<close>

record SavedZone =
  zoneId :: string
  name :: string
  stats :: LiveCalculation
  formData :: PlantFormData
  timestamp :: nat

text \<open>
  \<open>handleEditZone\<close> of the application opens a saved zone for editing:
  \<open>setFormData(zone.formData)\<close>. The form is not remounted, so it keeps its own state.
\<close>

definition handleEditZone :: "SavedZone \<Rightarrow> InputForm \<Rightarrow> error + InputForm" where
  "handleEditZone zone st = propsEvent (SavedZone.formData zone) st"

definition calculateZoneGallons :: "SavedZone \<Rightarrow> jsnum" where
  "calculateZoneGallons z =
     (case zoneAreaSqFt (SavedZone.formData z) of
        None \<Rightarrow> Fin 0
      | Some a \<Rightarrow>
          if a = [] then Fin 0
          else
            (let area = parseFloat a;
                 pr = precipRate (stats z);
                 minutes = weeklyTotalMinutes (stats z);
                 inches = jmul (jdiv minutes (Fin 60)) pr
             in Math_round (jmul (jmul inches area) (lit 0.623))))"

definition zoneCost :: "SavedZone \<Rightarrow> jsnum \<Rightarrow> jsnum" where
  "zoneCost z gallons_in =
     (if waterSource (SavedZone.formData z) = ''Secondary'' then Fin 0
      else
        (let pricePer1k = parseFloat (strOr (waterPrice (SavedZone.formData z)) ''3.00'')
         in jmul (jdiv (jmul gallons_in (lit 4.3)) (Fin 1000)) pricePer1k))"

text \<open>
  A row of the report, without the text of its \<open>cycle\<close> column.
\<close>

record ReportRow =
  rowName :: string
  area :: string
  pr :: jsnum
  weeklyMin :: jsnum
  freq :: jsnum
  gallons :: jsnum
  cost :: jsnum
  isSecondary :: bool

definition zoneRow :: "SavedZone \<Rightarrow> ReportRow" where
  "zoneRow z =
     (let gallons_v = calculateZoneGallons z
      in \<lparr>rowName = name z,
          area = strOr (zoneAreaSqFt (SavedZone.formData z)) ''-'',
          pr = precipRate (stats z),
          weeklyMin = weeklyTotalMinutes (stats z),
          freq = suggestedFrequency (stats z),
          gallons = gallons_v,
          cost = zoneCost z gallons_v,
          isSecondary = (waterSource (SavedZone.formData z) = ''Secondary'')\<rparr>)"

text \<open>
  \<open>zones.map\<close> with its callback adding to \<open>totalGallons\<close> and \<open>totalMonthlyCost\<close>:
  the rows and the two totals after the last zone.
\<close>

fun savedZoneRows :: "SavedZone list \<Rightarrow> jsnum \<times> jsnum \<Rightarrow> ReportRow list \<times> jsnum \<times> jsnum" where
  "savedZoneRows [] (totalGallons, totalMonthlyCost) = ([], totalGallons, totalMonthlyCost)"
| "savedZoneRows (z # zs) (totalGallons, totalMonthlyCost) =
     (let row = zoneRow z;
          (rows, totals) =
            savedZoneRows zs (jadd totalGallons (gallons row), jadd totalMonthlyCost (cost row))
      in (row # rows, totals))"

definition totalGallons :: "SavedZone list \<Rightarrow> jsnum" where
  "totalGallons zones = fst (snd (savedZoneRows zones (Fin 0, Fin 0)))"

definition totalMonthlyCost :: "SavedZone list \<Rightarrow> jsnum" where
  "totalMonthlyCost zones = snd (snd (savedZoneRows zones (Fin 0, Fin 0)))"

section \<open>Auxiliary notions and example inputs\<close>

text \<open>A number is finite and positive.\<close>

definition isPositive :: "jsnum \<Rightarrow> bool" where
  "isPositive a = (case a of Fin x \<Rightarrow> 0 < x | _ \<Rightarrow> False)"

text \<open>The entry of the nozzle table for the generic fixed spray nozzle.\<close>

definition spray_nozzle :: NozzleData where
  "spray_nozzle =
     \<lparr>rate = lit 1.5, label = ''Fixed Spray (Generic)'', optimalPsi = Fin 30,
      efficiency = lit 0.70\<rparr>"

text \<open>A cool-season turf zone on sand with a high water need and no mowing height.\<close>

definition zone_turf_sand :: PlantFormData where
  "zone_turf_sand =
     \<lparr>customZoneName = None, zoneType = ''Cool Season Turf Grass'', zoneAreaSqFt = None,
      mowingHeight = None, location = [], zipCode = [], month = [],
      estWeeklyEt = Some ''10'', estWeeklyRain = None, nozzleType = ''Hunter Pro-Spray'',
      pressure = Str [], efficiency = Some ''75'', soilType = ''Sand'', slope = ''0-15%'',
      sunlight = ''Direct Sun'', waterSource = ''Culinary'', waterPrice = Some ''3.00''\<rparr>"

text \<open>
  The scenario of the specification: a spray nozzle of 1.5 in/hr at its optimal 30 PSI
  on loam, slope 0-15%.
\<close>

definition zone_spray_loam :: PlantFormData where
  "zone_spray_loam =
     \<lparr>customZoneName = None, zoneType = ''Cool Season Turf Grass'', zoneAreaSqFt = None,
      mowingHeight = None, location = [], zipCode = [], month = [],
      estWeeklyEt = None, estWeeklyRain = None, nozzleType = ''Fixed Spray (Generic)'',
      pressure = Str ''30'', efficiency = Some ''70'', soilType = ''Loam'', slope = ''0-15%'',
      sunlight = ''Direct Sun'', waterSource = ''Culinary'', waterPrice = Some ''3.00''\<rparr>"

definition form_override :: InputForm where
  "form_override =
     \<lparr>InputForm.formData = zone_spray_loam,
      liveCalc =
        Some (calculate spray_nozzle zone_spray_loam (Some (Fin 3))),
      manualCycles = Some (Fin 3)\<rparr>"

text \<open>
  The form on the spray zone after its first render. One click on the plus button gives
  \<open>form_override\<close>. A zone saved earlier with the same inputs on clay, and the form
  after that zone is opened for editing.
\<close>

definition form_mounted :: InputForm where
  "form_mounted =
     \<lparr>InputForm.formData = zone_spray_loam,
      liveCalc = Some (calculate spray_nozzle zone_spray_loam None),
      manualCycles = None\<rparr>"

definition saved_clay :: SavedZone where
  "saved_clay =
     \<lparr>zoneId = ''1700000000001'', name = ''Zone 2'',
      stats = calculate spray_nozzle (zone_spray_loam\<lparr>soilType := ''Clay''\<rparr>) None,
      formData = zone_spray_loam\<lparr>soilType := ''Clay''\<rparr>,
      timestamp = 1700000000001\<rparr>"

definition form_edited :: InputForm where
  "form_edited =
     \<lparr>InputForm.formData = zone_spray_loam\<lparr>soilType := ''Clay''\<rparr>,
      liveCalc =
        Some (calculate spray_nozzle (zone_spray_loam\<lparr>soilType := ''Clay''\<rparr>) (Some (Fin 3))),
      manualCycles = Some (Fin 3)\<rparr>"

text \<open>
  A saved zone of 1000 square feet on unmetered secondary water, with 68 weekly minutes
  at 1.5 in/hr.
\<close>

definition saved_secondary :: SavedZone where
  "saved_secondary =
     \<lparr>zoneId = ''1700000000000'', name = ''Zone 1'',
      stats =
        calculate spray_nozzle zone_spray_loam None,
      formData = zone_spray_loam\<lparr>zoneAreaSqFt := Some ''1000'', waterSource := ''Secondary''\<rparr>,
      timestamp = 1700000000000\<rparr>"

text \<open>
  A saved warm-season turf zone of 5000 square feet on sand under low-angle rotors
  (0.75 in/hr), on culinary water at 3.00 per 1000 gallons.
\<close>

definition zone_rotor_sand :: PlantFormData where
  "zone_rotor_sand =
     \<lparr>customZoneName = None, zoneType = ''Warm Season Turf Grass'',
      zoneAreaSqFt = Some ''5000'', mowingHeight = None, location = [], zipCode = [],
      month = [], estWeeklyEt = None, estWeeklyRain = None, nozzleType = ''Rotor (Low Angle)'',
      pressure = Str [], efficiency = Some ''80'', soilType = ''Sand'', slope = ''0-15%'',
      sunlight = ''Direct Sun'', waterSource = ''Culinary'', waterPrice = Some ''3.00''\<rparr>"

definition saved_rotor :: SavedZone where
  "saved_rotor =
     \<lparr>zoneId = ''1700000000002'', name = ''Zone 3'',
      stats =
        calculate
          \<lparr>rate = lit 0.75, label = ''Rotor (Low Angle)'', optimalPsi = Fin 45,
           efficiency = lit 0.80\<rparr> zone_rotor_sand None,
      formData = zone_rotor_sand,
      timestamp = 1700000000002\<rparr>"

text \<open>A number is at least 0: a finite one from 0 on, or plus infinity.\<close>

definition isNonNegative :: "jsnum \<Rightarrow> bool" where
  "isNonNegative a = jle (Fin 0) a"

text \<open>
  The spray zone when the weather estimate carried no rainfall: \<open>String(undefined)\<close> is
  stored as the weekly rain. The form after its first render, and after one click on the
  plus button.
\<close>

definition zone_nan_rain :: PlantFormData where
  "zone_nan_rain = zone_spray_loam\<lparr>estWeeklyRain := Some ''undefined''\<rparr>"

definition form_nan_mounted :: InputForm where
  "form_nan_mounted =
     \<lparr>InputForm.formData = zone_nan_rain,
      liveCalc =
        Some (calculate spray_nozzle zone_nan_rain None),
      manualCycles = None\<rparr>"

definition form_nan_clicked :: InputForm where
  "form_nan_clicked =
     \<lparr>InputForm.formData = zone_nan_rain,
      liveCalc =
        Some (calculate spray_nozzle zone_nan_rain (Some NaN)),
      manualCycles = Some NaN\<rparr>"



section \<open>Facts about rounding\<close>

lemmas num_defs =
  isNaN_def truthy_def numOr_def jlt_def jgt_def jle_def jge_def Math_max_def Math_min_def
  jneg_def jadd_def jsub_def jmul_def jdiv_def Math_ceil_def Math_floor_def Math_round_def
  Math_sqrt_def toFixed2_def

lemmas parse_defs =
  isWhiteSpace_def isDigit_def digitVal_def digitsVal_def scanSign_def scanExponent_def
  scale10_def scanDecimal_def startsWith_def parseFloat_def trim_def radixDigit_def
  radixVal_def StringToNumber_def

lemmas table_defs =
  NOZZLE_DATA_def SOIL_RATES_def SOIL_SOAK_TIMES_def SLOPE_FACTORS_def ZONE_FACTORS_def
  SUNLIGHT_FACTORS_def Object_prototype_keys_def lookupOr_def nozzleLookup_def

lemmas calc_defs =
  soilInfiltration_def slopeFactor_def sunFactor_def calc_efficiency_def calc_precipRate_def
  userEt_def calc_netWeeklyInches_def calc_weeklyTotalMinutes_def isSandy_def isTurf_def
  calc_mowingHeight_def baseFrequency_def mowingConstraint_def calc_suggestedFrequency_def
  calc_dailyRunTime_def calc_inchesAppliedPerDay_def calc_maxRunTime_def autoCycles_def
  calculate_def requiredPresent_def useEffect_def truthyV_def Number_def strOr_def

text \<open>The exponent search, one step for each numeral of fuel.\<close>

lemma expoSearch_numeral:
  "expoSearch (numeral k) x e =
     (if 2 \<le> x then expoSearch (pred_numeral k) (x / 2) (e + 1)
      else if x < 1 then expoSearch (pred_numeral k) (x * 2) (e - 1)
      else e)"
  by (simp add: numeral_eq_Suc)

text \<open>Comparisons on the constructors.\<close>

lemma jlt_simps [simp]:
  "jlt NaN b = False" "jlt a NaN = False"
  "jlt (Fin x) (Fin y) = (x < y)"
  "jlt (Fin x) PInf = True" "jlt (Fin x) NInf = False"
  "jlt PInf b = False" "jlt NInf (Fin y) = True" "jlt NInf PInf = True" "jlt NInf NInf = False"
  by (auto simp: jlt_def split: jsnum.splits)

lemma jle_simps [simp]:
  "jle NaN b = False" "jle a NaN = False"
  "jle (Fin x) (Fin y) = (x \<le> y)"
  "jle (Fin x) PInf = True" "jle (Fin x) NInf = False"
  "jle PInf (Fin y) = False" "jle NInf (Fin y) = True"
  "jle PInf PInf = True" "jle NInf NInf = True" "jle NInf PInf = True" "jle PInf NInf = False"
  by (auto simp: jle_def split: jsnum.splits)

text \<open>Powers of two.\<close>

lemma pow2_pos [simp]: "0 < (2::real) powi k"
  by simp

lemma pow2_Suc: "(2::real) powi (k + 1) = 2 * 2 powi k"
  by (simp add: power_int_add)

lemma pow2_mono: "k \<le> l \<Longrightarrow> (2::real) powi k \<le> 2 powi l"
  by (rule power_int_increasing) simp_all

lemma pow2_less_cancel: "(2::real) powi k < 2 powi l \<Longrightarrow> k < l"
  using pow2_mono [of l k] by (cases "k < l") auto

text \<open>
  The search finds the binary exponent of every number within \<open>n\<close> binary orders of
  magnitude of 1 when it has \<open>n\<close> steps.
\<close>

lemma expoSearch_bounds:
  assumes "2 powi (- int n) \<le> x" and "x < 2 * 2 powi (int n)"
  shows "2 powi (expoSearch n x e - e) \<le> x \<and> x < 2 powi (expoSearch n x e - e + 1)"
  using assms
proof (induction n arbitrary: x e)
  case 0
  then show ?case by simp
next
  case (Suc n)
  have one: "(2::real) powi (- int n) \<le> 1" "1 \<le> (2::real) powi (int n)"
    using pow2_mono [of "- int n" 0] pow2_mono [of 0 "int n"] by simp_all
  have s: "(2::real) powi (int (Suc n)) = 2 * 2 powi (int n)"
    "(2::real) powi (- int n) = 2 * 2 powi (- int (Suc n))"
    using pow2_Suc [of "int n"] pow2_Suc [of "- int (Suc n)"] by (simp_all add: add.commute)
  consider "2 \<le> x" | "x < 1" | "1 \<le> x" "x < 2"
    by linarith
  then show ?case
  proof cases
    case 1
    have "2 powi (- int n) \<le> x / 2" "x / 2 < 2 * 2 powi (int n)"
      using 1 one Suc.prems s by simp_all
    from Suc.IH [OF this, of "e + 1"] 1 show ?thesis
      using pow2_Suc [of "expoSearch n (x / 2) (e + 1) - (e + 1)"]
        pow2_Suc [of "expoSearch n (x / 2) (e + 1) - e"]
      by (simp add: algebra_simps)
  next
    case 2
    have "1 \<le> (2::real) ^ n"
      by simp
    with 2 have "x * 2 < 2 * 2 ^ n"
      by linarith
    then have b: "x * 2 < 2 * 2 powi (int n)"
      by simp
    have a: "2 powi (- int n) \<le> x * 2"
      using Suc.prems(1) s(2) by linarith
    from Suc.IH [OF a b, of "e - 1"] 2 show ?thesis
      using pow2_Suc [of "expoSearch n (x * 2) (e - 1) - e"]
        pow2_Suc [of "expoSearch n (x * 2) (e - 1) - e + 1"]
      by (simp add: algebra_simps)
  next
    case 3
    then show ?thesis by simp
  qed
qed

text \<open>
  Its 1100 steps cover the range of binary64: from \<open>2^-1022\<close> up to \<open>2^1024\<close> the number
  \<open>expo a\<close> is the binary exponent of \<open>a\<close>, and it is monotone.
\<close>

lemma expo_upper:
  assumes "0 < a" and "a < 2 ^ 1024"
  shows "a < 2 powi (expo a + 1)"
proof (cases "a < 2 powi (- 1022)")
  case True
  moreover have "(2::real) powi (- 1022) \<le> 2 powi (- 1022 + 1)"
    by (rule pow2_mono) simp
  ultimately show ?thesis
    by (simp add: expo_def)
next
  case False
  have "(2::real) powi (- int 1100) \<le> 2 powi (- 1022)"
    by (rule pow2_mono) simp
  with False have 1: "2 powi (- int 1100) \<le> a"
    by simp
  have "(2::real) ^ 1024 \<le> 2 * 2 powi (int 1100)"
    using pow2_mono [of 1024 1100] by simp
  with assms(2) have 2: "a < 2 * 2 powi (int 1100)"
    by simp
  from expoSearch_bounds [OF 1 2, of 0] False show ?thesis
    by (simp add: expo_def)
qed

lemma expo_lower:
  assumes "2 powi (- 1022) \<le> a" and "a < 2 ^ 1024"
  shows "2 powi (expo a) \<le> a"
proof -
  have "(2::real) powi (- int 1100) \<le> 2 powi (- 1022)"
    by (rule pow2_mono) simp
  with assms(1) have 1: "2 powi (- int 1100) \<le> a"
    by simp
  have "(2::real) ^ 1024 \<le> 2 * 2 powi (int 1100)"
    using pow2_mono [of 1024 1100] by simp
  with assms(2) have 2: "a < 2 * 2 powi (int 1100)"
    by simp
  from expoSearch_bounds [OF 1 2, of 0] assms(1) show ?thesis
    by (simp add: expo_def)
qed

lemma expo_ge:
  assumes "0 < a" and "a < 2 ^ 1024"
  shows "- 1022 \<le> expo a"
proof (cases "a < 2 powi (- 1022)")
  case True
  then show ?thesis by (simp add: expo_def)
next
  case False
  then have "2 powi (- 1022) \<le> a" by simp
  also have "a < 2 powi (expo a + 1)"
    using assms by (rule expo_upper)
  finally have "- 1022 < expo a + 1"
    by (rule pow2_less_cancel)
  then show ?thesis by simp
qed

lemma expo_mono:
  assumes "0 < x" and "x \<le> y" and "y < 2 ^ 1024"
  shows "expo x \<le> expo y"
proof (rule ccontr)
  assume "\<not> expo x \<le> expo y"
  then have l: "expo y + 1 \<le> expo x"
    by simp
  have y: "0 < y"
    using assms by simp
  have x: "x < 2 ^ 1024"
    using assms by simp
  have "- 1022 < expo x"
    using expo_ge [OF y assms(3)] l by simp
  then have "\<not> x < 2 powi (- 1022)"
    by (auto simp: expo_def)
  then have "2 powi (expo x) \<le> x"
    using expo_lower x by simp
  moreover have "y < 2 powi (expo y + 1)"
    using y assms(3) by (rule expo_upper)
  moreover have "(2::real) powi (expo y + 1) \<le> 2 powi (expo x)"
    using l by (rule pow2_mono)
  ultimately show False
    using assms(2) by linarith
qed

text \<open>Rounding to the nearest integer keeps whole numbers and is monotone.\<close>

lemma roundHalfEven_of_int [simp]: "roundHalfEven (of_int k) = k"
  by (simp add: roundHalfEven_def)

lemma roundHalfEven_numeral [simp]: "roundHalfEven (numeral k) = numeral k"
  using roundHalfEven_of_int [of "numeral k"] by simp

lemma roundHalfEven_mono: "y \<le> z \<Longrightarrow> roundHalfEven y \<le> roundHalfEven z"
proof -
  assume yz: "y \<le> z"
  then have f: "\<lfloor>y\<rfloor> \<le> \<lfloor>z\<rfloor>"
    by (rule floor_mono)
  show ?thesis
  proof (cases "\<lfloor>y\<rfloor> = \<lfloor>z\<rfloor>")
    case True
    with yz show ?thesis
      by (auto simp: roundHalfEven_def Let_def)
  next
    case False
    with f have "\<lfloor>y\<rfloor> + 1 \<le> \<lfloor>z\<rfloor>"
      by simp
    moreover have "roundHalfEven y \<le> \<lfloor>y\<rfloor> + 1" "\<lfloor>z\<rfloor> \<le> roundHalfEven z"
      by (auto simp: roundHalfEven_def Let_def)
    ultimately show ?thesis
      by linarith
  qed
qed

text \<open>Rounding to the spacing at a positive number is monotone below \<open>2^1024\<close>.\<close>

lemma ulp_pos [simp]: "0 < ulp a"
  by (simp add: ulp_def)

lemma roundToUlp_nonneg: "0 \<le> x \<Longrightarrow> 0 \<le> roundToUlp x"
proof -
  assume "0 \<le> x"
  then have "0 \<le> x / ulp \<bar>x\<bar>"
    by (intro divide_nonneg_pos) simp_all
  from roundHalfEven_mono [OF this] have "0 \<le> roundHalfEven (x / ulp \<bar>x\<bar>)"
    using roundHalfEven_of_int [of 0] by simp
  then show ?thesis
    unfolding roundToUlp_def by (intro mult_nonneg_nonneg) (simp_all add: less_imp_le)
qed

lemma roundToUlp_mono:
  assumes "0 < x" and "x \<le> y" and "y < 2 ^ 1024"
  shows "roundToUlp x \<le> roundToUlp y"
proof -
  have y: "0 < y" and x: "x < 2 ^ 1024"
    using assms by simp_all
  have ax: "\<bar>x\<bar> = x" and ay: "\<bar>y\<bar> = y"
    using assms(1) y by simp_all
  from expo_mono [OF assms] consider "expo x = expo y" | "expo x + 1 \<le> expo y"
    by linarith
  then show ?thesis
  proof cases
    case 1
    then have u: "ulp x = ulp y"
      by (simp add: ulp_def)
    have "x / ulp y \<le> y / ulp y"
      using assms(2) by (intro divide_right_mono) (simp_all add: less_imp_le)
    from roundHalfEven_mono [OF this] show ?thesis
      by (simp add: roundToUlp_def ax ay u)
  next
    case 2
    have ux: "2 powi (expo x + 1) = 2 ^ 53 * ulp x"
      using power_int_add [of "2::real" "expo x - 52" 53]
      by (simp add: ulp_def add.commute mult.commute)
    have uy: "2 powi (expo y) = 2 ^ 52 * ulp y"
      using power_int_add [of "2::real" "expo y - 52" 52]
      by (simp add: ulp_def add.commute mult.commute)
    have "x < 2 powi (expo x + 1)"
      using assms(1) x by (rule expo_upper)
    then have "x / ulp x \<le> of_int (2 ^ 53)"
      by (simp add: ux pos_divide_le_eq)
    from roundHalfEven_mono [OF this] have "roundToUlp x \<le> 2 ^ 53 * ulp x"
      by (simp add: roundToUlp_def ax)
    then have a: "roundToUlp x \<le> 2 powi (expo x + 1)"
      by (simp add: ux)
    have "- 1022 < expo y"
      using expo_ge [OF assms(1) x] 2 by simp
    then have "\<not> y < 2 powi (- 1022)"
      by (auto simp: expo_def)
    then have "2 powi (expo y) \<le> y"
      using expo_lower assms(3) by simp
    then have "of_int (2 ^ 52) \<le> y / ulp y"
      by (simp add: uy pos_le_divide_eq)
    from roundHalfEven_mono [OF this] have "2 ^ 52 * ulp y \<le> roundToUlp y"
      by (simp add: roundToUlp_def ay)
    then have b: "2 powi (expo y) \<le> roundToUlp y"
      by (simp add: uy)
    from a b pow2_mono [OF 2] show ?thesis
      by linarith
  qed
qed

text \<open>
  Rounding to binary64 gives a number, keeps the sign, and is monotone on the numbers
  from 0 on.
\<close>

lemma fl_not_NaN [simp]: "fl x \<noteq> NaN"
  by (simp add: fl_def)

lemma fl_nonneg:
  assumes "0 \<le> x"
  shows "fl x = PInf \<or> (\<exists>r. fl x = Fin r \<and> 0 \<le> r)"
  using assms roundToUlp_nonneg [OF assms] by (auto simp: fl_def)

lemma fl_mono:
  assumes "0 \<le> x" and "x \<le> y"
  shows "jle (fl x) (fl y)"
proof (cases "x = 0")
  case True
  then show ?thesis
    using fl_nonneg [of y] assms by (auto simp: fl_def)
next
  case False
  then have x: "0 < x" and y: "0 < y"
    using assms by simp_all
  show ?thesis
  proof (cases "y < 2 ^ 1024")
    case True
    from roundToUlp_mono [OF x assms(2) True] roundToUlp_nonneg [of x] x y assms(2) True
    show ?thesis
      by (auto simp: fl_def)
  next
    case False
    then have "fl y = PInf"
      using y by (simp add: fl_def)
    then show ?thesis
      using fl_nonneg [OF assms(1)] by auto
  qed
qed

lemma fl_nonpos:
  assumes "x \<le> 0"
  shows "fl x = NInf \<or> (\<exists>r. fl x = Fin r \<and> r \<le> 0)"
proof -
  have "x / ulp \<bar>x\<bar> \<le> 0"
    using assms by (intro divide_nonpos_pos) simp_all
  from roundHalfEven_mono [OF this] have "roundHalfEven (x / ulp \<bar>x\<bar>) \<le> 0"
    using roundHalfEven_of_int [of 0] by simp
  then have "roundToUlp x \<le> 0"
    unfolding roundToUlp_def by (intro mult_nonpos_nonneg) (simp_all add: less_imp_le)
  with assms show ?thesis
    by (auto simp: fl_def)
qed

text \<open>
  Between \<open>2^-64\<close> and \<open>2^64\<close> the rounding neither underflows nor overflows; the
  evaluation of \<open>fl\<close> tries this range first.
\<close>

lemma roundToUlp_upper:
  assumes "0 < x" and "x < 2 ^ 1024"
  shows "roundToUlp x \<le> 2 powi (expo x + 1)"
proof -
  have ux: "2 powi (expo x + 1) = 2 ^ 53 * ulp x"
    using power_int_add [of "2::real" "expo x - 52" 53]
    by (simp add: ulp_def add.commute mult.commute)
  have "x < 2 powi (expo x + 1)"
    using assms by (rule expo_upper)
  then have "x / ulp x \<le> of_int (2 ^ 53)"
    by (simp add: ux pos_divide_le_eq)
  from roundHalfEven_mono [OF this] have "roundToUlp x \<le> 2 ^ 53 * ulp x"
    using assms(1) by (simp add: roundToUlp_def)
  then show ?thesis
    by (simp add: ux)
qed

lemma fl_normal:
  assumes "1 / 2 ^ 64 \<le> x" and "x < 2 ^ 64"
  shows "fl x = (let u = 2 powi (expoSearch 1100 x 0 - 52)
                 in Fin (of_int (roundHalfEven (x / u)) * u))"
proof -
  have "(0::real) < 1 / 2 ^ 64"
    by simp
  then have x: "0 < x"
    using assms(1) by (rule less_le_trans)
  have "(2::real) ^ 64 = 2 powi 64" "(2::real) ^ 1024 = 2 powi 1024"
    by simp_all
  then have p: "(2::real) ^ 64 \<le> 2 ^ 1024"
    using pow2_mono [of 64 1024] by simp
  with assms(2) have b: "x < 2 ^ 1024"
    by simp
  have "(2::real) powi (- 1022) \<le> 2 powi (- 64)"
    by (rule pow2_mono) simp
  moreover have "(2::real) powi (- 64) = 1 / 2 ^ 64"
    by simp
  ultimately have "(2::real) powi (- 1022) \<le> 1 / 2 ^ 64"
    by (simp only:)
  then have l: "2 powi (- 1022) \<le> x"
    using assms(1) by (rule order_trans)
  then have e: "expo x = expoSearch 1100 x 0"
    by (simp add: expo_def)
  have "2 powi (expo x) \<le> x"
    using l b by (rule expo_lower)
  with assms(2) have "(2::real) powi (expo x) < 2 powi 64"
    by simp
  then have "expo x + 1 \<le> 64"
    using pow2_less_cancel [of "expo x" 64] by simp
  then have "(2::real) powi (expo x + 1) \<le> 2 powi 64"
    by (rule pow2_mono)
  with roundToUlp_upper [OF x b] p have "roundToUlp x \<le> 2 ^ 64"
    by simp
  moreover have "(2::real) ^ 64 < 2 ^ 1024"
    by simp
  ultimately have "roundToUlp x < 2 ^ 1024"
    by (rule le_less_trans)
  moreover have "0 \<le> roundToUlp x"
    using x by (simp add: roundToUlp_nonneg)
  ultimately have "fl x = Fin (roundToUlp x)"
    using x b by (simp add: fl_def)
  then show ?thesis
    using x by (simp add: roundToUlp_def ulp_def e Let_def)
qed

lemma fl_simp:
  "fl x =
     (if 1 / 2 ^ 64 \<le> x \<and> x < 2 ^ 64
      then (let u = 2 powi (expoSearch 1100 x 0 - 52)
            in Fin (of_int (roundHalfEven (x / u)) * u))
      else if x = 0 then Fin 0
      else if 2 ^ 1024 \<le> \<bar>x\<bar> then (if 0 < x then PInf else NInf)
      else if 2 ^ 1024 \<le> \<bar>roundToUlp x\<bar> then (if 0 < x then PInf else NInf)
      else Fin (roundToUlp x))"
proof (cases "1 / 2 ^ 64 \<le> x \<and> x < 2 ^ 64")
  case True
  then show ?thesis
    using fl_normal [of x] by simp
next
  case False
  then show ?thesis
    by (simp only: fl_def if_False)
qed

lemmas fl_eval = fl_simp roundToUlp_def ulp_def expo_def expoSearch_numeral roundHalfEven_def

text \<open>Binary64 values that the proofs meet.\<close>

lemma fl_whole:
  "fl 0 = Fin 0" "fl 1 = Fin 1" "fl 2 = Fin 2" "fl 3 = Fin 3" "fl 4 = Fin 4" "fl 5 = Fin 5"
  "fl 6 = Fin 6" "fl 7 = Fin 7" "fl 8 = Fin 8" "fl 9 = Fin 9" "fl 10 = Fin 10" "fl 11 = Fin 11"
  "fl 18 = Fin 18" "fl 19 = Fin 19"
  by (simp_all add: fl_eval)

lemma fl_fraction:
  "fl (1 / 4) = Fin (1 / 4)" "fl (1 / 2) = Fin (1 / 2)" "fl (3 / 2) = Fin (3 / 2)"
  "fl (9 / 4) = Fin (9 / 4)"
  by (simp_all add: fl_eval)

text \<open>Bounds by binary64 values carry over to the rounded number.\<close>

lemma fl_at_least:
  assumes "fl a = Fin a" and "0 \<le> a" and "a \<le> x"
  shows "jle (Fin a) (fl x)"
  using fl_mono [OF assms(2,3)] by (simp add: assms(1))

lemma fl_at_most:
  assumes "fl b = Fin b" and "0 \<le> x" and "x \<le> b"
  shows "jle (fl x) (Fin b)"
  using fl_mono [OF assms(2,3)] by (simp add: assms(1))

lemma fl_between:
  assumes "fl a = Fin a" and "fl b = Fin b" and "0 \<le> a" and "a \<le> x" and "x \<le> b"
  shows "\<exists>r. fl x = Fin r \<and> a \<le> r \<and> r \<le> b"
proof -
  have "0 \<le> x"
    using assms(3,4) by simp
  from fl_at_least [OF assms(1,3,4)] fl_at_most [OF assms(2) this assms(5)]
  show ?thesis
    by (cases "fl x") simp_all
qed

text \<open>The binary64 values of the decimal literals of the source.\<close>

lemma lit_values:
  "lit (1 / 2) = Fin (1 / 2)"
  "lit (3 / 2) = Fin (3 / 2)"
  "lit (8 / 5) = Fin (3602879701896397 / 2251799813685248)"
  "lit (2 / 5) = Fin (3602879701896397 / 9007199254740992)"
  "lit (4 / 5) = Fin (3602879701896397 / 4503599627370496)"
  "lit (3 / 5) = Fin (5404319552844595 / 9007199254740992)"
  "lit (3 / 4) = Fin (3 / 4)"
  "lit (7 / 20) = Fin (3152519739159347 / 9007199254740992)"
  "lit (7 / 10) = Fin (3152519739159347 / 4503599627370496)"
  "lit (17 / 20) = Fin (7656119366529843 / 9007199254740992)"
  "lit (9 / 10) = Fin (8106479329266893 / 9007199254740992)"
  "lit (1 / 4) = Fin (1 / 4)"
  "lit (3 / 20) = Fin (5404319552844595 / 36028797018963968)"
  "lit (1 / 10) = Fin (3602879701896397 / 36028797018963968)"
  "lit (3 / 10) = Fin (5404319552844595 / 18014398509481984)"
  "lit (19 / 20) = Fin (4278419646001971 / 4503599627370496)"
  "lit (5 / 4) = Fin (5 / 4)"
  "lit (7 / 5) = Fin (3152519739159347 / 2251799813685248)"
  "lit (623 / 1000) = Fin (2805742567851819 / 4503599627370496)"
  "lit (43 / 10) = Fin (4841369599423283 / 1125899906842624)"
  by (simp_all add: lit_def fl_eval)

lemmas eval_defs = num_defs lit_values parse_defs table_defs calc_defs fl_eval Let_def

text \<open>Congruence rules that keep evaluation from simplifying a branch before it is chosen.\<close>

lemmas eval_congs =
  let_weak_cong jsnum.case_cong_weak option.case_cong_weak prod.case_cong_weak
  sum.case_cong_weak list.case_cong_weak numOrStr.case_cong_weak

section \<open>Facts about numbers and tables\<close>

lemma jge_not_jlt: "jge a b \<Longrightarrow> \<not> jlt a b"
  by (cases a; cases b) (auto simp: jge_def)

lemma jgt_zeroD: "jgt a (Fin 0) \<Longrightarrow> (\<exists>x. a = Fin x \<and> 0 < x) \<or> a = PInf"
  by (cases a) (auto simp: jgt_def)

lemma jle_not_jgt: "jle a b \<Longrightarrow> \<not> jgt a b"
  by (simp add: jle_def jgt_def)

lemma jgt_or_jle: "a \<noteq> NaN \<Longrightarrow> b \<noteq> NaN \<Longrightarrow> jgt a b \<or> jle a b"
  by (simp add: jle_def jgt_def)

lemma jle_trans: "jle a b \<Longrightarrow> jle b c \<Longrightarrow> jle a c"
  by (cases a; cases b; cases c) simp_all

lemma Math_max_Fin [simp]: "Math_max (Fin x) (Fin y) = Fin (max x y)"
  by (simp add: Math_max_def max_def)

lemma Math_min_Fin [simp]: "Math_min (Fin x) (Fin y) = Fin (min x y)"
  by (simp add: Math_min_def min_def)

lemma Math_inf_simps [simp]:
  "Math_max PInf (Fin y) = PInf" "Math_min PInf (Fin y) = Fin y"
  "Math_max NInf (Fin y) = Fin y" "Math_min NInf (Fin y) = NInf"
  "Math_max (Fin y) PInf = PInf" "Math_min (Fin y) PInf = Fin y"
  "Math_max (Fin y) NInf = Fin y" "Math_min (Fin y) NInf = NInf"
  by (simp_all add: Math_max_def Math_min_def)

lemma Math_max_mono: "jle a b \<Longrightarrow> c \<noteq> NaN \<Longrightarrow> jle (Math_max a c) (Math_max b c)"
  by (cases a; cases b; cases c) (simp_all add: Math_max_def)

lemma Math_min_mono: "jle a b \<Longrightarrow> c \<noteq> NaN \<Longrightarrow> jle (Math_min a c) (Math_min b c)"
  by (cases a; cases b; cases c) (simp_all add: Math_min_def)

lemma jmul_Fin [simp]: "jmul (Fin x) (Fin y) = fl (x * y)"
  by (simp add: jmul_def)

lemma jdiv_Fin [simp]: "y \<noteq> 0 \<Longrightarrow> jdiv (Fin x) (Fin y) = fl (x / y)"
  by (simp add: jdiv_def)

lemma jdiv_PInf [simp]: "0 < y \<Longrightarrow> jdiv PInf (Fin y) = PInf"
  by (simp add: jdiv_def)

lemma jadd_Fin [simp]: "jadd (Fin x) (Fin y) = fl (x + y)"
  by (simp add: jadd_def)

lemma Math_sqrt_Fin [simp]: "0 \<le> y \<Longrightarrow> Math_sqrt (Fin y) = fl (sqrt y)"
  by (simp add: Math_sqrt_def)

lemma Math_sqrt_PInf [simp]: "Math_sqrt PInf = PInf"
  by (simp add: Math_sqrt_def)

lemma lit_not_NaN [simp]: "lit d \<noteq> NaN"
  by (simp add: lit_def)

lemma isPositiveD: "isPositive a \<Longrightarrow> \<exists>x. a = Fin x \<and> 0 < x"
  by (cases a) (auto simp: isPositive_def)

lemma isPositive_Fin [simp]: "isPositive (Fin x) = (0 < x)"
  by (simp add: isPositive_def)

lemma isNonNegative_cases:
  "isNonNegative a \<longleftrightarrow> (\<exists>x. a = Fin x \<and> 0 \<le> x) \<or> a = PInf"
  by (cases a) (auto simp: isNonNegative_def)

lemma isNonNegative_fl: "0 \<le> x \<Longrightarrow> isNonNegative (fl x)"
  using fl_nonneg [of x] by (auto simp: isNonNegative_def)

lemma strOr_absent: "s = None \<or> s = Some [] \<Longrightarrow> strOr s d = d"
  by (auto simp: strOr_def)

lemma parseFloat_3: "parseFloat ''3.0'' = Fin 3"
  by (simp add: parse_defs fl_eval)

text \<open>
  Every entry of the nozzle table has a positive rate of at most 12, a positive optimal
  pressure and a positive efficiency.
\<close>

lemma NOZZLE_DATA_entry:
  assumes "map_of NOZZLE_DATA k = Some nozzle"
  shows "isPositive (rate nozzle) \<and> isPositive (optimalPsi nozzle)
         \<and> isPositive (NozzleData.efficiency nozzle) \<and> jle (rate nozzle) (Fin 12)"
  using assms by (auto simp: NOZZLE_DATA_def lit_values split: if_splits)

text \<open>
  A table of numbers gives a positive number or, for a key inherited from
  \<open>Object.prototype\<close>, no number.
\<close>

lemma soilInfiltration_cases:
  "(soilInfiltration fd = NaN \<and> List.member Object_prototype_keys (soilType fd))
   \<or> isPositive (soilInfiltration fd)"
  by (simp add: soilInfiltration_def lookupOr_def SOIL_RATES_def numOr_def truthy_def
      lit_values)

lemma slopeFactor_cases:
  "(slopeFactor fd = NaN \<and> List.member Object_prototype_keys (slope fd))
   \<or> isPositive (slopeFactor fd)"
  by (simp add: slopeFactor_def lookupOr_def SLOPE_FACTORS_def numOr_def truthy_def
      lit_values)

text \<open>A key that is found nowhere reads as the default.\<close>

lemma lookupOr_unknown:
  "map_of tbl k = None \<Longrightarrow> \<not> List.member Object_prototype_keys k \<Longrightarrow> lookupOr tbl k d = d"
  by (simp add: lookupOr_def)

lemma nozzleLookup_table: "map_of NOZZLE_DATA k = Some nozzle \<Longrightarrow> nozzleLookup k = Some nozzle"
  by (simp add: nozzleLookup_def)

section \<open>Facts about the calculation\<close>

lemma useEffect_SomeD:
  assumes "useEffect fd mc = Inr (Some lc)"
  obtains nozzle where "requiredPresent fd" "nozzleLookup (nozzleType fd) = Some nozzle"
    "lc = calculate nozzle fd mc"
  using assms by (auto simp: useEffect_def split: if_splits option.splits)

lemma calculate_suggestedFrequency:
  "suggestedFrequency (calculate nozzle fd mc) =
     calc_suggestedFrequency (isSandy fd) (isTurf fd) (calc_mowingHeight fd) (calc_netWeeklyInches fd)"
  by (simp add: calculate_def Let_def)

lemma calculate_precipRate:
  "precipRate (calculate nozzle fd mc) = calc_precipRate nozzle (pressure fd)"
  by (simp add: calculate_def Let_def)

lemma calculate_maxRunTime:
  "maxRunTime (calculate nozzle fd mc) =
     calc_maxRunTime (precipRate (calculate nozzle fd mc)) (soilInfiltration fd) (slopeFactor fd)"
  by (simp add: calculate_def Let_def)

lemma baseFrequency_range: "baseFrequency sandy n \<in> {Fin 2, Fin 3, Fin 4, Fin 5}"
  by (simp add: baseFrequency_def Let_def)

text \<open>On a turf zone whose mowing height is not below 2.0 the frequency is capped at 4.\<close>

lemma frequency_cap:
  assumes "\<not> jlt mh (Fin 2.0)"
  shows "\<exists>k. calc_suggestedFrequency sandy True mh n = Fin k \<and> 1 \<le> k \<and> k \<le> 4"
proof -
  obtain f where f: "baseFrequency sandy n = Fin f" "f \<in> {2, 3, 4, 5}"
    using baseFrequency_range [of sandy n] by auto
  then show ?thesis
    using assms by (auto simp: calc_suggestedFrequency_def mowingConstraint_def)
qed

section \<open>The frequency cap of tall turf\<close>

text \<open>
  C2. On a turf zone (the zone type contains \<open>Turf\<close>) with a mowing height of at least
  2.0 inches, the suggested frequency of the produced result is at most 4, whatever the
  soil type and the net weekly water need are.
\<close>

theorem turf_tall_frequency_cap:
  assumes "useEffect fd mc = Inr (Some lc)" and "isTurf fd"
    and "jge (calc_mowingHeight fd) (Fin 2.0)"
  shows "jle (suggestedFrequency lc) (Fin 4)"
proof -
  from assms(1) obtain nozzle where lc: "lc = calculate nozzle fd mc"
    by (rule useEffect_SomeD)
  from assms(3) have "\<not> jlt (calc_mowingHeight fd) (Fin 2.0)"
    by (rule jge_not_jlt)
  from frequency_cap [OF this, of "isSandy fd" "calc_netWeeklyInches fd"]
  show ?thesis
    using assms(2) by (auto simp: lc calculate_suggestedFrequency)
qed

text \<open>
  On sand with a net need of 9.5 inches the base frequency is 5; at a mowing height of
  2.5 inches the result has frequency 4.
\<close>

theorem turf_tall_frequency_cap_witness:
  "isTurf (zone_turf_sand\<lparr>mowingHeight := Some ''2.5''\<rparr>)
   \<and> jge (calc_mowingHeight (zone_turf_sand\<lparr>mowingHeight := Some ''2.5''\<rparr>)) (Fin 2.0)
   \<and> baseFrequency (isSandy (zone_turf_sand\<lparr>mowingHeight := Some ''2.5''\<rparr>))
        (calc_netWeeklyInches (zone_turf_sand\<lparr>mowingHeight := Some ''2.5''\<rparr>)) = Fin 5
   \<and> (\<exists>lc. useEffect (zone_turf_sand\<lparr>mowingHeight := Some ''2.5''\<rparr>) None = Inr (Some lc)
         \<and> jle (suggestedFrequency lc) (Fin 4))"
proof -
  let ?fd = "zone_turf_sand\<lparr>mowingHeight := Some ''2.5''\<rparr>"
  have t: "isTurf ?fd"
    by (simp add: zone_turf_sand_def isTurf_def startsWith_def)
  have m: "jge (calc_mowingHeight ?fd) (Fin 2.0)"
    by (simp add: zone_turf_sand_def calc_mowingHeight_def strOr_def parse_defs jge_def fl_eval)
  have b: "baseFrequency (isSandy ?fd) (calc_netWeeklyInches ?fd) = Fin 5"
    by (simp add: zone_turf_sand_def eval_defs cong: eval_congs)
  obtain lc where e: "useEffect ?fd None = Inr (Some lc)"
    by (simp add: zone_turf_sand_def useEffect_def requiredPresent_def nozzleLookup_def
        NOZZLE_DATA_def)
  from turf_tall_frequency_cap [OF e t m] t m b e show ?thesis
    by blast
qed

section \<open>The default mowing height\<close>

text \<open>
  C9. On a turf zone whose mowing height input is absent or empty, the calculation uses a
  mowing height of 3.0 inches, and the suggested frequency of the produced result is at
  most 4.
\<close>

theorem default_mowing_height:
  assumes "useEffect fd mc = Inr (Some lc)" and "isTurf fd"
    and "mowingHeight fd = None \<or> mowingHeight fd = Some []"
  shows "calc_mowingHeight fd = Fin 3.0 \<and> jle (suggestedFrequency lc) (Fin 4)"
proof -
  from assms(1) obtain nozzle where lc: "lc = calculate nozzle fd mc"
    by (rule useEffect_SomeD)
  have mh: "calc_mowingHeight fd = Fin 3"
    using assms(3) by (simp add: calc_mowingHeight_def strOr_absent parseFloat_3)
  then have "\<not> jlt (calc_mowingHeight fd) (Fin 2.0)"
    by simp
  from frequency_cap [OF this, of "isSandy fd" "calc_netWeeklyInches fd"]
  show ?thesis
    using assms(2) mh by (auto simp: lc calculate_suggestedFrequency)
qed

text \<open>
  The turf zone on sand, whose base frequency is 5, has no mowing height: the result has
  frequency 4.
\<close>

theorem default_mowing_height_witness:
  "isTurf zone_turf_sand \<and> mowingHeight zone_turf_sand = None
   \<and> baseFrequency (isSandy zone_turf_sand) (calc_netWeeklyInches zone_turf_sand) = Fin 5
   \<and> calc_mowingHeight zone_turf_sand = Fin 3.0
   \<and> (\<exists>lc. useEffect zone_turf_sand None = Inr (Some lc) \<and> suggestedFrequency lc = Fin 4)"
proof -
  have t: "isTurf zone_turf_sand"
    by (simp add: zone_turf_sand_def isTurf_def startsWith_def)
  have m: "mowingHeight zone_turf_sand = None"
    by (simp add: zone_turf_sand_def)
  then have m': "mowingHeight zone_turf_sand = None \<or> mowingHeight zone_turf_sand = Some []"
    by simp
  have b: "baseFrequency (isSandy zone_turf_sand) (calc_netWeeklyInches zone_turf_sand) = Fin 5"
    by (simp add: zone_turf_sand_def eval_defs cong: eval_congs)
  obtain lc where e: "useEffect zone_turf_sand None = Inr (Some lc)"
    and f: "suggestedFrequency lc = Fin 4"
    by (simp add: zone_turf_sand_def eval_defs cong: eval_congs)
  from default_mowing_height [OF e t m'] t m b e f show ?thesis
    by blast
qed

section \<open>Facts about the pressure adjustment\<close>

lemma Number_pos_truthyV:
  assumes "Number v = Fin p" and "0 < p"
  shows "truthyV v \<and> jgt (Number v) (Fin 0)"
proof (cases v)
  case (Str s)
  have "StringToNumber [] = Fin 0"
    by (simp add: StringToNumber_def trim_def)
  with assms Str have "s \<noteq> []"
    by (auto simp: Number_def)
  with assms Str show ?thesis
    by (simp add: truthyV_def jgt_def)
next
  case (Num n)
  with assms show ?thesis
    by (simp add: truthyV_def truthy_def Number_def jgt_def)
qed

text \<open>The pressure multiplier of a positive pressure is a number, and its clamp is finite.\<close>

lemma pressureMultiplier_not_NaN:
  assumes "0 < q" and "(\<exists>x. a = Fin x \<and> 0 < x) \<or> a = PInf"
  shows "Math_sqrt (jdiv a (Fin q)) \<noteq> NaN"
proof -
  from assms(2) show ?thesis
  proof
    assume "\<exists>x. a = Fin x \<and> 0 < x"
    then obtain x where x: "a = Fin x" "0 < x"
      by blast
    then have "0 \<le> x / q"
      using assms(1) by simp
    from fl_nonneg [OF this] show ?thesis
      using x assms(1) by auto
  next
    assume "a = PInf"
    then show ?thesis
      using assms(1) by simp
  qed
qed

lemma jle_betweenD:
  assumes "jle (Fin l) b" and "jle b (Fin h)"
  shows "\<exists>c. b = Fin c \<and> l \<le> c \<and> c \<le> h"
  using assms by (cases b) simp_all

lemma clamp_range:
  assumes "a \<noteq> NaN"
  shows "\<exists>c. Math_min (Math_max a (lit 0.5)) (lit 1.5) = Fin c \<and> 1 / 2 \<le> c \<and> c \<le> 3 / 2"
proof (rule jle_betweenD)
  show "jle (Fin (1 / 2)) (Math_min (Math_max a (lit 0.5)) (lit 1.5))"
    using assms by (cases a) (simp_all add: lit_values)
  show "jle (Math_min (Math_max a (lit 0.5)) (lit 1.5)) (Fin (3 / 2))"
    using assms by (cases a) (simp_all add: lit_values)
qed

lemma toFixed2_bounded:
  assumes "0 \<le> y" and "y \<le> 18"
  shows "\<exists>z. toFixed2 (Fin y) = Fin z \<and> 0 \<le> z \<and> z \<le> 19"
proof -
  let ?t = "sgn y * of_int \<lfloor>\<bar>y\<bar> * 100 + 1 / 2\<rfloor> / 100"
  have a: "\<bar>y\<bar> = y"
    using assms(1) by simp
  have f: "0 \<le> real_of_int \<lfloor>y * 100 + 1 / 2\<rfloor>"
    using assms(1) by simp
  have "real_of_int \<lfloor>y * 100 + 1 / 2\<rfloor> \<le> y * 100 + 1 / 2"
    by (rule of_int_floor_le)
  with assms(2) have g: "real_of_int \<lfloor>y * 100 + 1 / 2\<rfloor> \<le> 1900"
    by simp
  have "0 \<le> ?t \<and> ?t \<le> 19"
    using f g assms(1) by (cases "y = 0") (simp_all add: a sgn_if)
  then obtain z where "fl ?t = Fin z" "0 \<le> z" "z \<le> 19"
    using fl_between [of 0 19 ?t] by (auto simp: fl_whole)
  moreover have "toFixed2 (Fin y) = fl ?t"
    using assms by (simp add: toFixed2_def)
  ultimately show ?thesis
    by simp
qed

lemma calc_precipRate_pressure:
  assumes "optimalPsi nozzle = Fin q" and "Number v = Fin p" and "0 < p"
  shows "calc_precipRate nozzle v =
           toFixed2 (jmul (rate nozzle)
             (Math_min (Math_max (Math_sqrt (jdiv (Fin p) (Fin q))) (lit 0.5)) (lit 1.5)))"
  using Number_pos_truthyV [OF assms(2,3)] assms(1,2)
  by (simp add: calc_precipRate_def Let_def)

lemma calc_precipRate_no_pressure:
  assumes "\<not> (truthyV v \<and> jgt (Number v) (Fin 0))"
  shows "calc_precipRate nozzle v = rate nozzle"
  using assms by (auto simp: calc_precipRate_def Let_def)

text \<open>For a nozzle of the table the precipitation rate is a finite number from 0 to 19.\<close>

lemma calc_precipRate_Fin:
  assumes "map_of NOZZLE_DATA k = Some nozzle"
  shows "\<exists>x. calc_precipRate nozzle v = Fin x \<and> 0 \<le> x \<and> x \<le> 19"
proof -
  from NOZZLE_DATA_entry [OF assms] obtain r q where
    np: "rate nozzle = Fin r" "0 < r" "r \<le> 12" "optimalPsi nozzle = Fin q" "0 < q"
    by (auto dest!: isPositiveD)
  show ?thesis
  proof (cases "truthyV v \<and> jgt (Number v) (Fin 0)")
    case True
    then have "(\<exists>x. Number v = Fin x \<and> 0 < x) \<or> Number v = PInf"
      by (simp add: jgt_zeroD)
    from pressureMultiplier_not_NaN [OF np(5) this]
    obtain c where c: "Math_min (Math_max (Math_sqrt (jdiv (Number v) (Fin q))) (lit 0.5)) (lit 1.5)
        = Fin c" "1 / 2 \<le> c" "c \<le> 3 / 2"
      using clamp_range by blast
    have "0 \<le> r * c"
      using np(2) c(2) by simp
    moreover have "r * c \<le> 12 * (3 / 2)"
      using np(2,3) c(2,3) by (intro mult_mono) simp_all
    then have "r * c \<le> 18"
      by simp
    ultimately obtain y where y: "fl (r * c) = Fin y" "0 \<le> y" "y \<le> 18"
      using fl_between [of 0 18 "r * c"] by (auto simp: fl_whole)
    have "calc_precipRate nozzle v = toFixed2 (Fin y)"
      using True np(1,4) c(1) y(1) by (simp add: calc_precipRate_def Let_def)
    with toFixed2_bounded [OF y(2,3)] show ?thesis
      by simp
  next
    case False
    then show ?thesis
      using np by (simp add: calc_precipRate_no_pressure)
  qed
qed

section \<open>The runoff ceiling of a single cycle\<close>

text \<open>
  C3. In every produced result: if the precipitation rate exceeds the soil infiltration
  rate, \<open>maxRunTime\<close> is \<open>max(3, floor(60 * (soilInfiltration / precipRate) * slopeFactor))\<close>,
  where the quotient and the two products are rounded to binary64 as the code computes
  them; otherwise \<open>maxRunTime\<close> is 60, in particular if the precipitation rate is at
  most the soil infiltration rate. For a nozzle of the table and a soil type that is not
  the name of an inherited property, both rates are numbers and one of the two
  comparisons holds.
\<close>

theorem maxRunTime_runoff_ceiling:
  assumes "useEffect fd mc = Inr (Some lc)"
  shows "(jgt (precipRate lc) (soilInfiltration fd) \<longrightarrow>
            maxRunTime lc =
              Math_max (Fin 3)
                (Math_floor
                  (jmul (jmul (Fin 60) (jdiv (soilInfiltration fd) (precipRate lc))) (slopeFactor fd))))
         \<and> (\<not> jgt (precipRate lc) (soilInfiltration fd) \<longrightarrow> maxRunTime lc = Fin 60)
         \<and> (jle (precipRate lc) (soilInfiltration fd) \<longrightarrow> maxRunTime lc = Fin 60)
         \<and> (map_of NOZZLE_DATA (nozzleType fd) \<noteq> None
              \<and> \<not> List.member Object_prototype_keys (soilType fd) \<longrightarrow>
              jgt (precipRate lc) (soilInfiltration fd) \<or> jle (precipRate lc) (soilInfiltration fd))"
proof -
  from assms obtain nozzle where
    nz: "nozzleLookup (nozzleType fd) = Some nozzle" and lc: "lc = calculate nozzle fd mc"
    by (rule useEffect_SomeD)
  have m: "maxRunTime lc = calc_maxRunTime (precipRate lc) (soilInfiltration fd) (slopeFactor fd)"
    by (simp add: lc calculate_maxRunTime)
  have 1: "jgt (precipRate lc) (soilInfiltration fd) \<longrightarrow>
            maxRunTime lc =
              Math_max (Fin 3)
                (Math_floor
                  (jmul (jmul (Fin 60) (jdiv (soilInfiltration fd) (precipRate lc))) (slopeFactor fd)))"
    unfolding m by (simp add: calc_maxRunTime_def Let_def)
  have 2: "\<not> jgt (precipRate lc) (soilInfiltration fd) \<longrightarrow> maxRunTime lc = Fin 60"
    unfolding m by (simp add: calc_maxRunTime_def)
  have 3: "jle (precipRate lc) (soilInfiltration fd) \<longrightarrow> maxRunTime lc = Fin 60"
    using 2 by (auto dest: jle_not_jgt)
  have 4: "jgt (precipRate lc) (soilInfiltration fd) \<or> jle (precipRate lc) (soilInfiltration fd)"
    if t: "map_of NOZZLE_DATA (nozzleType fd) \<noteq> None
           \<and> \<not> List.member Object_prototype_keys (soilType fd)"
  proof -
    from t nz have "map_of NOZZLE_DATA (nozzleType fd) = Some nozzle"
      by (auto simp: nozzleLookup_def)
    from calc_precipRate_Fin [OF this, of "pressure fd"] have "precipRate lc \<noteq> NaN"
      by (auto simp: lc calculate_precipRate)
    moreover have "soilInfiltration fd \<noteq> NaN"
      using soilInfiltration_cases [of fd] t by (auto dest: isPositiveD)
    ultimately show ?thesis
      by (rule jgt_or_jle)
  qed
  from 1 2 3 4 show ?thesis
    by blast
qed

text \<open>
  The scenario of the specification, where the rate 1.5 exceeds the infiltration rate 0.5
  of loam and the ceiling is 20 minutes. On silty clay the binary64 product is just below
  6 and the ceiling is 5 minutes. On sand (infiltration rate 2.0) the ceiling is 60.
\<close>

theorem maxRunTime_runoff_ceiling_witness:
  "(\<exists>lc. useEffect zone_spray_loam None = Inr (Some lc)
      \<and> jgt (precipRate lc) (soilInfiltration zone_spray_loam) \<and> maxRunTime lc = Fin 20)
   \<and> (\<exists>lc. useEffect (zone_spray_loam\<lparr>soilType := ''Silty Clay''\<rparr>) None = Inr (Some lc)
      \<and> jgt (precipRate lc) (soilInfiltration (zone_spray_loam\<lparr>soilType := ''Silty Clay''\<rparr>))
      \<and> maxRunTime lc = Fin 5)
   \<and> (\<exists>lc. useEffect zone_turf_sand None = Inr (Some lc)
      \<and> jle (precipRate lc) (soilInfiltration zone_turf_sand) \<and> maxRunTime lc = Fin 60)"
proof -
  have "\<exists>lc. useEffect zone_spray_loam None = Inr (Some lc) \<and> precipRate lc = Fin 1.5"
    by (simp add: zone_spray_loam_def eval_defs cong: eval_congs)
  then obtain lc where e: "useEffect zone_spray_loam None = Inr (Some lc)"
    and p: "precipRate lc = Fin 1.5"
    by blast
  have s: "soilInfiltration zone_spray_loam = Fin 0.5" "slopeFactor zone_spray_loam = Fin 1"
    by (simp_all add: zone_spray_loam_def eval_defs cong: eval_congs)
  have g: "jgt (precipRate lc) (soilInfiltration zone_spray_loam)"
    using p s by (simp add: jgt_def)
  from maxRunTime_runoff_ceiling [OF e] g have "maxRunTime lc = Fin 20"
    using p s by (simp add: Math_floor_def fl_eval cong: eval_congs)
  with e g have 1: "\<exists>lc. useEffect zone_spray_loam None = Inr (Some lc)
      \<and> jgt (precipRate lc) (soilInfiltration zone_spray_loam) \<and> maxRunTime lc = Fin 20"
    by blast
  let ?fd = "zone_spray_loam\<lparr>soilType := ''Silty Clay''\<rparr>"
  have "\<exists>lc. useEffect ?fd None = Inr (Some lc) \<and> precipRate lc = Fin 1.5"
    by (simp add: zone_spray_loam_def eval_defs cong: eval_congs)
  then obtain lc2 where e2: "useEffect ?fd None = Inr (Some lc2)"
    and p2: "precipRate lc2 = Fin 1.5"
    by blast
  have s2: "soilInfiltration ?fd = lit 0.15" "slopeFactor ?fd = Fin 1"
    by (simp_all add: zone_spray_loam_def eval_defs cong: eval_congs)
  have g2: "jgt (precipRate lc2) (soilInfiltration ?fd)"
    using p2 s2 by (simp add: jgt_def lit_values)
  from maxRunTime_runoff_ceiling [OF e2] g2 have "maxRunTime lc2 = Fin 5"
    using p2 s2 by (simp add: Math_floor_def lit_values fl_eval cong: eval_congs)
  with e2 g2 have 2: "\<exists>lc. useEffect ?fd None = Inr (Some lc)
      \<and> jgt (precipRate lc) (soilInfiltration ?fd) \<and> maxRunTime lc = Fin 5"
    by blast
  have "\<exists>lc. useEffect zone_turf_sand None = Inr (Some lc) \<and> precipRate lc = Fin 1.5"
    by (simp add: zone_turf_sand_def eval_defs cong: eval_congs)
  then obtain lc3 where e3: "useEffect zone_turf_sand None = Inr (Some lc3)"
    and p3: "precipRate lc3 = Fin 1.5"
    by blast
  have s3: "soilInfiltration zone_turf_sand = Fin 2"
    by (simp add: zone_turf_sand_def eval_defs cong: eval_congs)
  have g3: "jle (precipRate lc3) (soilInfiltration zone_turf_sand)"
    using p3 s3 by simp
  from maxRunTime_runoff_ceiling [OF e3] g3 have "maxRunTime lc3 = Fin 60"
    by blast
  with e3 g3 have 3: "\<exists>lc. useEffect zone_turf_sand None = Inr (Some lc)
      \<and> jle (precipRate lc) (soilInfiltration zone_turf_sand) \<and> maxRunTime lc = Fin 60"
    by blast
  from 1 2 3 show ?thesis
    by blast
qed

section \<open>Facts about the handlers\<close>

lemma runEffect_InrD:
  assumes "runEffect st = Inr st'"
  shows "\<exists>r. useEffect (InputForm.formData st) (manualCycles st) = Inr r \<and> st' = st\<lparr>liveCalc := r\<rparr>"
  using assms by (auto simp: runEffect_def split: sum.splits)

lemma changeEvent_InrD:
  assumes "changeEvent n v st = Inr st'"
  shows "manualCycles st' = manualCycles (handleChange n v st)
         \<and> InputForm.formData st' = InputForm.formData (handleChange n v st)"
  using assms by (auto simp: changeEvent_def Let_def split: if_splits dest!: runEffect_InrD)

lemma changeEvent_ran:
  assumes "changeEvent n v st = Inr st'"
    and "effectDeps (handleChange n v st) \<noteq> effectDeps st"
  shows "useEffect (InputForm.formData st') (manualCycles st') = Inr (liveCalc st')"
  using assms by (auto simp: changeEvent_def Let_def dest!: runEffect_InrD)

text \<open>
  A replacement of the form data by the parent does not pass through the change handler
  and leaves the override as it was.
\<close>

lemma propsEvent_keeps_override:
  assumes "propsEvent formData' st = Inr st'"
  shows "manualCycles st' = manualCycles st \<and> InputForm.formData st' = formData'"
  using assms by (auto simp: propsEvent_def Let_def split: if_splits dest!: runEffect_InrD)

lemma handleChange_manualCycles:
  "manualCycles (handleChange n v st) =
     (if n = ''nozzleType'' \<or> n = ''soilType'' \<or> n = ''slope'' then None else manualCycles st)"
  by (simp add: handleChange_def Let_def)

lemma effectDeps_manualCycles: "effectDeps st' = effectDeps st \<Longrightarrow> manualCycles st' = manualCycles st"
  by (simp add: effectDeps_def Let_def)

text \<open>
  The change handler clears the override on a change of \<open>nozzleType\<close>, \<open>soilType\<close> or
  \<open>slope\<close>, and the hook then stores the automatic result; on a change of \<open>pressure\<close>,
  \<open>efficiency\<close>, \<open>sunlight\<close>, \<open>estWeeklyEt\<close>, \<open>estWeeklyRain\<close> or \<open>mowingHeight\<close> it
  leaves the override as it was.
\<close>

lemma handleChange_override:
  "(n = ''nozzleType'' \<or> n = ''soilType'' \<or> n = ''slope'' \<longrightarrow>
      manualCycles (handleChange n v st) = None
      \<and> (\<forall>st'. manualCycles st \<noteq> None \<and> changeEvent n v st = Inr st' \<longrightarrow>
             manualCycles st' = None
             \<and> useEffect (InputForm.formData st') None = Inr (liveCalc st')))
   \<and> (n = ''pressure'' \<or> n = ''efficiency'' \<or> n = ''sunlight'' \<or> n = ''estWeeklyEt''
        \<or> n = ''estWeeklyRain'' \<or> n = ''mowingHeight'' \<longrightarrow>
      manualCycles (handleChange n v st) = manualCycles st
      \<and> (\<forall>st'. changeEvent n v st = Inr st' \<longrightarrow> manualCycles st' = manualCycles st))"
proof (intro conjI impI allI)
  assume n: "n = ''nozzleType'' \<or> n = ''soilType'' \<or> n = ''slope''"
  then show c: "manualCycles (handleChange n v st) = None"
    by (simp add: handleChange_manualCycles)
  fix st'
  assume a: "manualCycles st \<noteq> None \<and> changeEvent n v st = Inr st'"
  then have "manualCycles st' = manualCycles (handleChange n v st)"
    by (simp add: changeEvent_InrD)
  then show m: "manualCycles st' = None"
    by (simp add: c)
  from a c have "effectDeps (handleChange n v st) \<noteq> effectDeps st"
    by (auto dest: effectDeps_manualCycles)
  with a have "useEffect (InputForm.formData st') (manualCycles st') = Inr (liveCalc st')"
    using changeEvent_ran by blast
  then show "useEffect (InputForm.formData st') None = Inr (liveCalc st')"
    by (simp add: m)
next
  assume n: "n = ''pressure'' \<or> n = ''efficiency'' \<or> n = ''sunlight'' \<or> n = ''estWeeklyEt''
        \<or> n = ''estWeeklyRain'' \<or> n = ''mowingHeight''"
  then show k: "manualCycles (handleChange n v st) = manualCycles st"
    by (auto simp: handleChange_manualCycles)
  fix st'
  assume "changeEvent n v st = Inr st'"
  then show "manualCycles st' = manualCycles st"
    using k by (simp add: changeEvent_InrD)
qed

text \<open>The results of the hook on the spray zone, on loam and on clay.\<close>

lemma spray_nozzle_lookup:
  "nozzleLookup ''Fixed Spray (Generic)'' = Some spray_nozzle"
  by (simp add: nozzleLookup_def NOZZLE_DATA_def spray_nozzle_def)

lemma useEffect_spray:
  "nozzleType fd = ''Fixed Spray (Generic)'' \<Longrightarrow> requiredPresent fd
   \<Longrightarrow> useEffect fd mc = Inr (Some (calculate spray_nozzle fd mc))"
  by (simp add: useEffect_def spray_nozzle_lookup)

lemma spray_loam_automatic:
  "cyclesPerDay (calculate spray_nozzle zone_spray_loam None) = Fin 2"
  "weeklyTotalMinutes (calculate spray_nozzle zone_spray_loam mc) = Fin 68"
  "precipRate (calculate spray_nozzle zone_spray_loam mc) = Fin 1.5"
  by (simp_all add: zone_spray_loam_def spray_nozzle_def eval_defs cong: eval_congs)

lemma spray_clay_automatic:
  "cyclesPerDay (calculate spray_nozzle (zone_spray_loam\<lparr>soilType := ''Clay''\<rparr>) None) = Fin 6"
  by (simp add: zone_spray_loam_def spray_nozzle_def eval_defs cong: eval_congs)

lemma calculate_override [simp]: "cyclesPerDay (calculate nozzle fd (Some m)) = m"
  by (simp add: calculate_def Let_def)

section \<open>Input changes and the manual override\<close>

text \<open>
  C4. A change of \<open>nozzleType\<close>, \<open>soilType\<close> or \<open>slope\<close> is to clear the manual override.
  The form on the spray zone on loam gets an override of 3 cycles by one click on the plus
  button. When the zone saved on clay is then opened for editing, the soil type changes
  from loam to clay, the override is still 3 and the stored result has 3 cycles, where the
  automatic count on clay is 6. The same change of the soil type made in the form itself
  clears the override.
\<close>

theorem edit_zone_keeps_override:
  "runEffect \<lparr>InputForm.formData = zone_spray_loam, liveCalc = None, manualCycles = None\<rparr>
     = Inr form_mounted
   \<and> cycleEvent (Fin 1) form_mounted = Inr form_override
   \<and> manualCycles form_override = Some (Fin 3)
   \<and> soilType (InputForm.formData form_override) = ''Loam''
   \<and> soilType (SavedZone.formData saved_clay) = ''Clay''
   \<and> handleEditZone saved_clay form_override = Inr form_edited
   \<and> manualCycles form_edited = Some (Fin 3)
   \<and> map_option cyclesPerDay (liveCalc form_edited) = Some (Fin 3)
   \<and> map_sum id (map_option cyclesPerDay) (useEffect (InputForm.formData form_edited) None)
       = Inr (Some (Fin 6))
   \<and> map_sum id manualCycles (changeEvent ''soilType'' ''Clay'' form_override) = Inr None"
proof (intro conjI)
  have r: "requiredPresent zone_spray_loam" "nozzleType zone_spray_loam = ''Fixed Spray (Generic)''"
    "requiredPresent (zone_spray_loam\<lparr>soilType := ''Clay''\<rparr>)"
    by (simp_all add: zone_spray_loam_def requiredPresent_def)
  show "runEffect \<lparr>InputForm.formData = zone_spray_loam, liveCalc = None, manualCycles = None\<rparr>
     = Inr form_mounted"
    by (simp add: runEffect_def useEffect_spray r form_mounted_def)
  have "handleCycleChange (Fin 1) form_mounted = form_mounted\<lparr>manualCycles := Some (Fin 3)\<rparr>"
    by (simp add: handleCycleChange_def form_mounted_def spray_loam_automatic Let_def fl_whole)
  then show "cycleEvent (Fin 1) form_mounted = Inr form_override"
    by (simp add: cycleEvent_def effectDeps_def runEffect_def useEffect_spray r form_mounted_def
        form_override_def Let_def)
  show "manualCycles form_override = Some (Fin 3)"
    by (simp add: form_override_def)
  show "soilType (InputForm.formData form_override) = ''Loam''"
    by (simp add: form_override_def zone_spray_loam_def)
  show "soilType (SavedZone.formData saved_clay) = ''Clay''"
    by (simp add: saved_clay_def)
  show "handleEditZone saved_clay form_override = Inr form_edited"
    by (simp add: handleEditZone_def propsEvent_def effectDeps_def runEffect_def useEffect_spray r
        saved_clay_def form_override_def form_edited_def Let_def)
  show "manualCycles form_edited = Some (Fin 3)"
    by (simp add: form_edited_def)
  show "map_option cyclesPerDay (liveCalc form_edited) = Some (Fin 3)"
    by (simp add: form_edited_def)
  show "map_sum id (map_option cyclesPerDay) (useEffect (InputForm.formData form_edited) None)
       = Inr (Some (Fin 6))"
    by (simp add: form_edited_def useEffect_spray r spray_clay_automatic)
  have "handleChange ''soilType'' ''Clay'' form_override =
      form_override\<lparr>InputForm.formData := zone_spray_loam\<lparr>soilType := ''Clay''\<rparr>,
        manualCycles := None\<rparr>"
    by (simp add: handleChange_def setField_def form_override_def)
  then show "map_sum id manualCycles (changeEvent ''soilType'' ''Clay'' form_override) = Inr None"
    by (simp add: changeEvent_def effectDeps_def runEffect_def useEffect_spray r form_override_def
        Let_def)
qed

section \<open>A change of the zone type\<close>

text \<open>
  C10. A change of \<open>zoneType\<close> made through the change handler does not clear the manual
  override; the handler clears it for no other field than \<open>nozzleType\<close>, \<open>soilType\<close>
  and \<open>slope\<close>. When the zone type really changes, the hook runs on the new form data
  with the override still in place, and the cycle count of the new result is the
  override.
\<close>

theorem zoneType_change_keeps_override:
  "manualCycles (handleChange ''zoneType'' v st) = manualCycles st
   \<and> (\<forall>n. n \<noteq> ''nozzleType'' \<and> n \<noteq> ''soilType'' \<and> n \<noteq> ''slope'' \<longrightarrow>
          manualCycles (handleChange n v st) = manualCycles st)
   \<and> (zoneType (InputForm.formData st) \<noteq> v \<longrightarrow>
        changeEvent ''zoneType'' v st = runEffect (handleChange ''zoneType'' v st))
   \<and> (\<forall>st'. changeEvent ''zoneType'' v st = Inr st' \<longrightarrow>
          manualCycles st' = manualCycles st \<and> zoneType (InputForm.formData st') = v)
   \<and> (\<forall>st' lc m. zoneType (InputForm.formData st) \<noteq> v \<and> changeEvent ''zoneType'' v st = Inr st'
          \<and> liveCalc st' = Some lc \<and> manualCycles st = Some m \<longrightarrow>
          useEffect (InputForm.formData st') (Some m) = Inr (Some lc) \<and> cyclesPerDay lc = m)"
proof (intro conjI impI allI)
  show k: "manualCycles (handleChange ''zoneType'' v st) = manualCycles st"
    by (simp add: handleChange_manualCycles)
  show "manualCycles (handleChange n v st) = manualCycles st"
    if "n \<noteq> ''nozzleType'' \<and> n \<noteq> ''soilType'' \<and> n \<noteq> ''slope''" for n
    using that by (simp add: handleChange_manualCycles)
  have f: "zoneType (InputForm.formData (handleChange ''zoneType'' v st)) = v"
    by (simp add: handleChange_def setField_def)
  {
    assume "zoneType (InputForm.formData st) \<noteq> v"
    with f have "effectDeps (handleChange ''zoneType'' v st) \<noteq> effectDeps st"
      by (auto simp: effectDeps_def Let_def)
  }
  note d = this
  show "changeEvent ''zoneType'' v st = runEffect (handleChange ''zoneType'' v st)"
    if "zoneType (InputForm.formData st) \<noteq> v"
    using d [OF that] by (simp add: changeEvent_def Let_def)
  show "manualCycles st' = manualCycles st" if "changeEvent ''zoneType'' v st = Inr st'" for st'
    using that k by (simp add: changeEvent_InrD)
  show "zoneType (InputForm.formData st') = v" if "changeEvent ''zoneType'' v st = Inr st'" for st'
    using that f by (simp add: changeEvent_InrD)
  fix st' lc m
  assume a: "zoneType (InputForm.formData st) \<noteq> v \<and> changeEvent ''zoneType'' v st = Inr st'
          \<and> liveCalc st' = Some lc \<and> manualCycles st = Some m"
  then have c: "changeEvent ''zoneType'' v st = Inr st'"
    and l: "liveCalc st' = Some lc" and m: "manualCycles st = Some m"
    and "effectDeps (handleChange ''zoneType'' v st) \<noteq> effectDeps st"
    using d by simp_all
  then have "useEffect (InputForm.formData st') (manualCycles st') = Inr (liveCalc st')"
    by (simp add: changeEvent_ran)
  moreover have "manualCycles st' = Some m"
    using c k m by (simp add: changeEvent_InrD)
  ultimately show u: "useEffect (InputForm.formData st') (Some m) = Inr (Some lc)"
    using l by simp
  then show "cyclesPerDay lc = m"
    by (auto elim!: useEffect_SomeD)
qed

text \<open>
  The form with an override of 3 cycles: after the zone type changes to trees the
  override is still 3, the result is recomputed (its weekly minutes go from 68 to 43)
  and its cycle count is 3.
\<close>

theorem zoneType_change_keeps_override_witness:
  "manualCycles form_override = Some (Fin 3)
   \<and> zoneType (InputForm.formData form_override) \<noteq> ''Trees''
   \<and> map_option weeklyTotalMinutes (liveCalc form_override) = Some (Fin 68)
   \<and> (\<exists>st' lc. changeEvent ''zoneType'' ''Trees'' form_override = Inr st'
         \<and> liveCalc st' = Some lc \<and> manualCycles st' = Some (Fin 3)
         \<and> weeklyTotalMinutes lc = Fin 43 \<and> cyclesPerDay lc = Fin 3)"
proof -
  have m: "manualCycles form_override = Some (Fin 3)"
    by (simp add: form_override_def)
  have z: "zoneType (InputForm.formData form_override) \<noteq> ''Trees''"
    by (simp add: form_override_def zone_spray_loam_def)
  have f: "map_option weeklyTotalMinutes (liveCalc form_override) = Some (Fin 68)"
    by (simp add: form_override_def spray_loam_automatic)
  have w: "weeklyTotalMinutes (calculate spray_nozzle (zone_spray_loam\<lparr>zoneType := ''Trees''\<rparr>)
      (Some (Fin 3))) = Fin 43"
    by (simp add: zone_spray_loam_def spray_nozzle_def eval_defs cong: eval_congs)
  have h: "handleChange ''zoneType'' ''Trees'' form_override =
      form_override\<lparr>InputForm.formData := zone_spray_loam\<lparr>zoneType := ''Trees''\<rparr>\<rparr>"
    by (simp add: handleChange_def setField_def form_override_def)
  have r: "requiredPresent (zone_spray_loam\<lparr>zoneType := ''Trees''\<rparr>)"
    "nozzleType zone_spray_loam = ''Fixed Spray (Generic)''"
    by (simp_all add: zone_spray_loam_def requiredPresent_def)
  have "\<exists>s lc. changeEvent ''zoneType'' ''Trees'' form_override = Inr s
      \<and> liveCalc s = Some lc \<and> weeklyTotalMinutes lc = Fin 43"
    unfolding changeEvent_def h using w
    by (simp add: effectDeps_def runEffect_def useEffect_spray r form_override_def Let_def)
      (simp add: zone_spray_loam_def)
  then obtain s lc where s: "changeEvent ''zoneType'' ''Trees'' form_override = Inr s"
    and l: "liveCalc s = Some lc" and q: "weeklyTotalMinutes lc = Fin 43"
    by blast
  from zoneType_change_keeps_override [of "''Trees''" form_override] m z s l
  have "manualCycles s = Some (Fin 3) \<and> cyclesPerDay lc = Fin 3"
    by simp
  with m z f s l q show ?thesis
    by blast
qed

section \<open>Gallons and cost of a saved zone\<close>

lemma savedZoneRows_totals:
  "snd (savedZoneRows zs (g, c)) =
     (foldl jadd g (map (\<lambda>z. gallons (zoneRow z)) zs),
      foldl jadd c (map (\<lambda>z. cost (zoneRow z)) zs))"
proof (induction zs arbitrary: g c)
  case Nil
  show ?case by simp
next
  case (Cons z zs)
  let ?g = "jadd g (gallons (zoneRow z))" and ?c = "jadd c (cost (zoneRow z))"
  obtain rows t where r: "savedZoneRows zs (?g, ?c) = (rows, t)"
    by (cases "savedZoneRows zs (?g, ?c)")
  with Cons.IH [of ?g ?c] have "t =
      (foldl jadd ?g (map (\<lambda>z. gallons (zoneRow z)) zs),
       foldl jadd ?c (map (\<lambda>z. cost (zoneRow z)) zs))"
    by simp
  with r show ?case
    by (simp add: Let_def)
qed

lemma totalGallons_foldl:
  "totalGallons zs = foldl jadd (Fin 0) (map (\<lambda>z. gallons (zoneRow z)) zs)"
  by (simp add: totalGallons_def savedZoneRows_totals)

lemma totalMonthlyCost_foldl:
  "totalMonthlyCost zs = foldl jadd (Fin 0) (map (\<lambda>z. cost (zoneRow z)) zs)"
  by (simp add: totalMonthlyCost_def savedZoneRows_totals)

text \<open>
  C7. For a saved zone with a known area (a non-empty \<open>zoneAreaSqFt\<close>), the gallons of
  its row are \<open>round(((weeklyTotalMinutes / 60) * precipRate) * area * 0.623)\<close> with the
  area parsed from the field, the quotient and each product rounded to binary64 as the
  code computes them. On the water source \<open>Secondary\<close> the cost is 0, whatever the area
  and the price are; otherwise it is \<open>(gallons * 4.3 / 1000) * price\<close>, with the price
  parsed from \<open>waterPrice\<close> (3.00 when that is missing). The zone's gallons are added to
  the gallons total and its cost to the cost total, so a secondary zone adds its gallons
  and a cost of 0.
\<close>

theorem zone_gallons_and_cost:
  assumes "zoneAreaSqFt (SavedZone.formData z) = Some a" and "a \<noteq> []"
  shows "gallons (zoneRow z) =
           Math_round
             (jmul
               (jmul (jmul (jdiv (weeklyTotalMinutes (stats z)) (Fin 60)) (precipRate (stats z)))
                 (parseFloat a))
               (lit 0.623))
         \<and> (waterSource (SavedZone.formData z) = ''Secondary'' \<longrightarrow> cost (zoneRow z) = Fin 0)
         \<and> (waterSource (SavedZone.formData z) \<noteq> ''Secondary'' \<longrightarrow>
              cost (zoneRow z) =
                jmul (jdiv (jmul (gallons (zoneRow z)) (lit 4.3)) (Fin 1000))
                  (parseFloat (strOr (waterPrice (SavedZone.formData z)) ''3.00'')))
         \<and> totalGallons (zs @ [z]) = jadd (totalGallons zs) (gallons (zoneRow z))
         \<and> totalMonthlyCost (zs @ [z]) = jadd (totalMonthlyCost zs) (cost (zoneRow z))"
proof (intro conjI)
  show "gallons (zoneRow z) =
           Math_round
             (jmul
               (jmul (jmul (jdiv (weeklyTotalMinutes (stats z)) (Fin 60)) (precipRate (stats z)))
                 (parseFloat a))
               (lit 0.623))"
    using assms by (simp add: zoneRow_def calculateZoneGallons_def strOr_def Let_def)
  show "waterSource (SavedZone.formData z) = ''Secondary'' \<longrightarrow> cost (zoneRow z) = Fin 0"
    by (simp add: zoneRow_def zoneCost_def Let_def)
  show "waterSource (SavedZone.formData z) \<noteq> ''Secondary'' \<longrightarrow>
          cost (zoneRow z) =
            jmul (jdiv (jmul (gallons (zoneRow z)) (lit 4.3)) (Fin 1000))
              (parseFloat (strOr (waterPrice (SavedZone.formData z)) ''3.00''))"
    by (simp add: zoneRow_def zoneCost_def Let_def)
  show "totalGallons (zs @ [z]) = jadd (totalGallons zs) (gallons (zoneRow z))"
    by (simp add: totalGallons_foldl)
  show "totalMonthlyCost (zs @ [z]) = jadd (totalMonthlyCost zs) (cost (zoneRow z))"
    by (simp add: totalMonthlyCost_foldl)
qed

text \<open>
  The secondary zone: 1059 gallons, cost 0. Alone in the report it gives a total of 1059
  gallons and a monthly cost of 0; the same zone on culinary water at 3.00 costs the
  binary64 value written 13.661100000000001. The rotor zone of 5000 square feet has 88
  weekly minutes at 0.75 in/hr: the binary64 product is just below 3426.5 and the row
  has 3426 gallons.
\<close>

theorem zone_gallons_and_cost_witness:
  "zoneAreaSqFt (SavedZone.formData saved_secondary) = Some ''1000''
   \<and> waterSource (SavedZone.formData saved_secondary) = ''Secondary''
   \<and> gallons (zoneRow saved_secondary) = Fin 1059
   \<and> cost (zoneRow saved_secondary) = Fin 0
   \<and> totalGallons [saved_secondary] = Fin 1059
   \<and> totalMonthlyCost [saved_secondary] = Fin 0
   \<and> cost (zoneRow (saved_secondary\<lparr>SavedZone.formData :=
         (SavedZone.formData saved_secondary)\<lparr>waterSource := ''Culinary''\<rparr>\<rparr>))
       = lit 13.661100000000001
   \<and> weeklyTotalMinutes (stats saved_rotor) = Fin 88
   \<and> precipRate (stats saved_rotor) = Fin 0.75
   \<and> zoneAreaSqFt (SavedZone.formData saved_rotor) = Some ''5000''
   \<and> gallons (zoneRow saved_rotor) = Fin 3426"
proof -
  let ?c = "saved_secondary\<lparr>SavedZone.formData :=
         (SavedZone.formData saved_secondary)\<lparr>waterSource := ''Culinary''\<rparr>\<rparr>"
  have a: "zoneAreaSqFt (SavedZone.formData saved_secondary) = Some ''1000''"
    and a': "zoneAreaSqFt (SavedZone.formData ?c) = Some ''1000''"
    and n: "''1000'' \<noteq> []"
    and w: "waterSource (SavedZone.formData saved_secondary) = ''Secondary''"
    and w': "waterSource (SavedZone.formData ?c) \<noteq> ''Secondary''"
    and p: "waterPrice (SavedZone.formData saved_secondary) = Some ''3.00''"
    by (simp_all add: saved_secondary_def zone_spray_loam_def)
  have s: "weeklyTotalMinutes (stats saved_secondary) = Fin 68"
    "precipRate (stats saved_secondary) = Fin (3 / 2)"
    "stats ?c = stats saved_secondary"
    by (simp_all add: saved_secondary_def spray_loam_automatic)
  have t: "totalGallons [] = Fin 0" "totalMonthlyCost [] = Fin 0"
    by (simp_all add: totalGallons_def totalMonthlyCost_def)
  have pf: "parseFloat ''1000'' = Fin 1000" "parseFloat ''3.00'' = Fin 3"
    "parseFloat ''5000'' = Fin 5000"
    by (simp_all add: parse_defs fl_eval cong: eval_congs)
  from zone_gallons_and_cost [OF a n, of "[]"] w
  have 1: "gallons (zoneRow saved_secondary) = Fin 1059 \<and> cost (zoneRow saved_secondary) = Fin 0
      \<and> totalGallons [saved_secondary] = Fin 1059 \<and> totalMonthlyCost [saved_secondary] = Fin 0"
    by (simp add: s t pf Math_round_def lit_values fl_eval cong: eval_congs)
  from zone_gallons_and_cost [OF a' n, of "[]"] w'
  have 2: "cost (zoneRow ?c) = lit 13.661100000000001"
    by (simp add: s pf p strOr_def Math_round_def lit_values lit_def fl_eval cong: eval_congs)
  have r: "weeklyTotalMinutes (stats saved_rotor) = Fin 88"
    "precipRate (stats saved_rotor) = Fin (3 / 4)"
    by (simp_all add: saved_rotor_def zone_rotor_sand_def eval_defs cong: eval_congs)
  have b: "zoneAreaSqFt (SavedZone.formData saved_rotor) = Some ''5000''" and n': "''5000'' \<noteq> []"
    by (simp_all add: saved_rotor_def zone_rotor_sand_def)
  from zone_gallons_and_cost [OF b n', of "[]"]
  have 3: "gallons (zoneRow saved_rotor) = Fin 3426"
    by (simp add: r pf Math_round_def lit_values fl_eval cong: eval_congs)
  from a w 1 2 r b 3 show ?thesis
    by simp
qed

section \<open>Facts about the order of precipitation rates\<close>

lemma sqrt_le_half: "0 \<le> x \<Longrightarrow> x \<le> 1 / 4 \<Longrightarrow> sqrt x \<le> 1 / 2"
  using real_sqrt_le_mono [of x "1 / 4"] by (simp add: real_sqrt_divide)

lemma sqrt_ge_three_halves: "9 / 4 \<le> x \<Longrightarrow> 3 / 2 \<le> sqrt x"
  using real_sqrt_le_mono [of "9 / 4" x] by (simp add: real_sqrt_divide)

lemma Math_sqrt_mono:
  assumes "jle (Fin 0) a" and "jle a b"
  shows "jle (Math_sqrt a) (Math_sqrt b)"
proof (cases a)
  case (Fin x)
  with assms(1) have x: "0 \<le> x"
    by simp
  show ?thesis
  proof (cases b)
    case (Fin y)
    with assms(2) \<open>a = Fin x\<close> have "x \<le> y"
      by simp
    with x have "jle (fl (sqrt x)) (fl (sqrt y))"
      by (intro fl_mono) simp_all
    with x \<open>x \<le> y\<close> show ?thesis
      by (simp add: \<open>a = Fin x\<close> Fin)
  next
    case PInf
    have "jle (fl (sqrt x)) PInf"
      using fl_not_NaN [of "sqrt x"] by (cases "fl (sqrt x)") simp_all
    with x show ?thesis
      by (simp add: \<open>a = Fin x\<close> PInf)
  qed (use assms(2) Fin in simp_all)
next
  case PInf
  with assms(2) have "b = PInf"
    by (cases b) simp_all
  with PInf show ?thesis
    by simp
qed (use assms(1) in simp_all)

lemma toFixed2_mono:
  assumes "0 \<le> x" and "x \<le> y" and "y \<le> 18"
  shows "jle (toFixed2 (Fin x)) (toFixed2 (Fin y))"
proof -
  have y: "0 \<le> y"
    using assms(1,2) by simp
  have "\<lfloor>x * 100 + 1 / 2\<rfloor> \<le> \<lfloor>y * 100 + 1 / 2\<rfloor>"
    using assms(2) by (intro floor_mono) simp
  then have le: "real_of_int \<lfloor>x * 100 + 1 / 2\<rfloor> / 100 \<le> real_of_int \<lfloor>y * 100 + 1 / 2\<rfloor> / 100"
    by simp
  have nn: "0 \<le> real_of_int \<lfloor>x * 100 + 1 / 2\<rfloor> / 100"
    using assms(1) by simp
  have tx: "toFixed2 (Fin x) =
      (if x = 0 then Fin 0 else fl (real_of_int \<lfloor>x * 100 + 1 / 2\<rfloor> / 100))"
    using assms by (simp add: toFixed2_def sgn_if fl_whole)
  have ty: "toFixed2 (Fin y) =
      (if y = 0 then Fin 0 else fl (real_of_int \<lfloor>y * 100 + 1 / 2\<rfloor> / 100))"
    using assms y by (simp add: toFixed2_def sgn_if fl_whole)
  have f0: "real_of_int \<lfloor>(0::real) * 100 + 1 / 2\<rfloor> / 100 = 0"
    by simp
  have "jle (fl (real_of_int \<lfloor>x * 100 + 1 / 2\<rfloor> / 100)) (fl (real_of_int \<lfloor>y * 100 + 1 / 2\<rfloor> / 100))"
    using nn le by (rule fl_mono)
  moreover have "x = 0 \<Longrightarrow> fl (real_of_int \<lfloor>x * 100 + 1 / 2\<rfloor> / 100) = Fin 0"
    by (simp add: fl_whole)
  moreover have "y = 0 \<Longrightarrow> x = 0"
    using assms(1,2) by simp
  ultimately show ?thesis
    unfolding tx ty by (cases "x = 0"; cases "y = 0") auto
qed

text \<open>The clamped multiplier of a positive pressure, as a finite number.\<close>

lemma clampedMultiplier_Fin:
  assumes "0 < q" and "0 < p"
  shows "\<exists>c. Math_min (Math_max (Math_sqrt (jdiv (Fin p) (Fin q))) (lit 0.5)) (lit 1.5) = Fin c
           \<and> 1 / 2 \<le> c \<and> c \<le> 3 / 2"
proof (rule clamp_range)
  show "Math_sqrt (jdiv (Fin p) (Fin q)) \<noteq> NaN"
    using assms by (intro pressureMultiplier_not_NaN) simp_all
qed

lemma clampedMultiplier_mono:
  assumes "0 < q" and "0 < p1" and "p1 \<le> p2"
  shows "jle (Math_min (Math_max (Math_sqrt (jdiv (Fin p1) (Fin q))) (lit 0.5)) (lit 1.5))
             (Math_min (Math_max (Math_sqrt (jdiv (Fin p2) (Fin q))) (lit 0.5)) (lit 1.5))"
proof -
  have "0 \<le> p1 / q" "p1 / q \<le> p2 / q"
    using assms by (simp_all add: divide_right_mono)
  then have d: "jle (fl (p1 / q)) (fl (p2 / q))" and z: "jle (Fin 0) (fl (p1 / q))"
    using fl_mono [of "p1 / q" "p2 / q"] fl_at_least [of 0 "p1 / q"] by (simp_all add: fl_whole)
  have "jle (Math_sqrt (fl (p1 / q))) (Math_sqrt (fl (p2 / q)))"
    using z d by (rule Math_sqrt_mono)
  then show ?thesis
    using assms(1) by (intro Math_min_mono Math_max_mono) simp_all
qed

lemma clampedMultiplier_low:
  assumes "0 < q" and "0 < p" and "p \<le> q / 4"
  shows "Math_min (Math_max (Math_sqrt (jdiv (Fin p) (Fin q))) (lit 0.5)) (lit 1.5) = lit 0.5"
proof -
  have "0 \<le> p / q" "p / q \<le> 1 / 4"
    using assms by (simp_all add: field_simps)
  then obtain r where r: "fl (p / q) = Fin r" "0 \<le> r" "r \<le> 1 / 4"
    using fl_between [of 0 "1 / 4" "p / q"] by (auto simp: fl_whole fl_fraction)
  have "sqrt r \<le> 1 / 2"
    using r(2,3) by (rule sqrt_le_half)
  moreover have "0 \<le> sqrt r"
    using r(2) by simp
  ultimately obtain s where s: "fl (sqrt r) = Fin s" "s \<le> 1 / 2"
    using fl_between [of 0 "1 / 2" "sqrt r"] by (auto simp: fl_whole fl_fraction)
  show ?thesis
    using assms(1) r s by (simp add: lit_values max_def min_def)
qed

lemma clampedMultiplier_high:
  assumes "0 < q" and "9 / 4 * q \<le> p"
  shows "Math_min (Math_max (Math_sqrt (jdiv (Fin p) (Fin q))) (lit 0.5)) (lit 1.5) = lit 1.5"
proof -
  have "9 / 4 \<le> p / q"
    using assms by (simp add: field_simps)
  then have a: "jle (Fin (9 / 4)) (fl (p / q))"
    using fl_at_least [of "9 / 4" "p / q"] by (simp add: fl_fraction)
  have "jle (Fin (3 / 2)) (Math_sqrt (fl (p / q)))"
  proof (cases "fl (p / q)")
    case (Fin r)
    with a have "9 / 4 \<le> r"
      by simp
    then have "3 / 2 \<le> sqrt r" and "0 \<le> r"
      by (simp_all only: sqrt_ge_three_halves)
    then show ?thesis
      using fl_at_least [of "3 / 2" "sqrt r"] by (simp add: Fin fl_fraction)
  qed (use a in simp_all)
  then show ?thesis
    using assms(1) by (cases "Math_sqrt (fl (p / q))") (simp_all add: lit_values max_def min_def)
qed

lemma useEffect_precipRate:
  assumes "useEffect (fd\<lparr>pressure := v\<rparr>) mc = Inr (Some lc)"
    and "map_of NOZZLE_DATA (nozzleType fd) = Some nozzle"
  shows "precipRate lc = calc_precipRate nozzle v"
  using assms by (auto elim!: useEffect_SomeD simp: calculate_precipRate nozzleLookup_def)

text \<open>Up to a quarter of the optimal pressure the multiplier is at its lower clamp.\<close>

lemma calc_precipRate_low_pressure:
  assumes "map_of NOZZLE_DATA k = Some nozzle" and "optimalPsi nozzle = Fin q"
    and "Number v = Fin p" and "0 < p" and "p \<le> q / 4"
  shows "calc_precipRate nozzle v = toFixed2 (jmul (rate nozzle) (lit 0.5))"
proof -
  have q: "0 < q"
    using NOZZLE_DATA_entry [OF assms(1)] assms(2) by simp
  show ?thesis
    unfolding calc_precipRate_pressure [OF assms(2,3,4)]
    by (simp only: clampedMultiplier_low [OF q assms(4,5)])
qed

section \<open>The precipitation rate as a function of the pressure\<close>

text \<open>
  C8 as stated fails: on the R-VAN nozzle (base rate 0.6, optimal pressure 45 PSI) a
  pressure of 10 PSI and a pressure of 11 PSI, both below the optimal one, give the same
  precipitation rate 0.3, since the multiplier is clamped at 0.5.
\<close>

theorem precipRate_not_increasing_counterexample:
  "Number (Str ''10'') = Fin 10 \<and> Number (Str ''11'') = Fin 11
   \<and> map_sum id (map_option precipRate)
        (useEffect (zone_spray_loam\<lparr>nozzleType := ''Rainbird R-VAN'', pressure := Str ''10''\<rparr>) None)
       = Inr (Some (lit 0.3))
   \<and> map_sum id (map_option precipRate)
        (useEffect (zone_spray_loam\<lparr>nozzleType := ''Rainbird R-VAN'', pressure := Str ''11''\<rparr>) None)
       = Inr (Some (lit 0.3))"
proof -
  let ?nozzle = "\<lparr>rate = lit 0.6, label = ''Rainbird R-VAN'', optimalPsi = Fin 45,
      efficiency = lit 0.75\<rparr>"
  have nz: "map_of NOZZLE_DATA ''Rainbird R-VAN'' = Some ?nozzle"
    by (simp add: NOZZLE_DATA_def)
  have q: "optimalPsi ?nozzle = Fin 45"
    by simp
  have n1: "Number (Str ''10'') = Fin 10" and n2: "Number (Str ''11'') = Fin 11"
    by (simp_all add: Number_def parse_defs fl_eval cong: eval_congs)
  have t: "toFixed2 (jmul (rate ?nozzle) (lit 0.5)) = lit 0.3"
    by (simp add: toFixed2_def lit_values fl_eval cong: eval_congs)
  have "calc_precipRate ?nozzle (Str ''10'') = toFixed2 (jmul (rate ?nozzle) (lit 0.5))"
    by (rule calc_precipRate_low_pressure [OF nz q n1]) simp_all
  then have 1: "calc_precipRate ?nozzle (Str ''10'') = lit 0.3"
    by (simp only: t)
  have "calc_precipRate ?nozzle (Str ''11'') = toFixed2 (jmul (rate ?nozzle) (lit 0.5))"
    by (rule calc_precipRate_low_pressure [OF nz q n2]) simp_all
  then have 2: "calc_precipRate ?nozzle (Str ''11'') = lit 0.3"
    by (simp only: t)
  have u: "useEffect (zone_spray_loam\<lparr>nozzleType := ''Rainbird R-VAN'', pressure := v\<rparr>) None
      = Inr (Some (calculate ?nozzle
          (zone_spray_loam\<lparr>nozzleType := ''Rainbird R-VAN'', pressure := v\<rparr>) None))" for v
    by (simp add: zone_spray_loam_def useEffect_def requiredPresent_def nozzleLookup_def
        NOZZLE_DATA_def)
  show ?thesis
    using 1 2 n1 n2 by (simp add: u calculate_precipRate)
qed

text \<open>
  C8, as amended. With every other input fixed and a table nozzle of base rate \<open>r\<close> and
  optimal pressure \<open>q\<close>, a positive pressure \<open>p\<close> gives
  \<open>precipRate = round(r * clamp(sqrt(p / q), 0.5, 1.5), 2 decimals)\<close>, the quotient, the
  square root and the product rounded to binary64 as the code computes them. The rate
  does not decrease when the pressure increases; it stays at \<open>round(r * 0.5)\<close> up to a
  quarter of the optimal pressure, and from 2.25 times the optimal pressure on it is
  \<open>round(r * 1.5)\<close>.
\<close>

theorem precipRate_pressure_monotone:
  assumes "useEffect (fd\<lparr>pressure := v1\<rparr>) mc = Inr (Some lc1)"
    and "useEffect (fd\<lparr>pressure := v2\<rparr>) mc = Inr (Some lc2)"
    and "map_of NOZZLE_DATA (nozzleType fd) = Some nozzle"
    and "optimalPsi nozzle = Fin q"
    and "Number v1 = Fin p1" and "Number v2 = Fin p2" and "0 < p1" and "p1 \<le> p2"
  shows "precipRate lc1 =
           toFixed2 (jmul (rate nozzle)
             (Math_min (Math_max (Math_sqrt (jdiv (Fin p1) (Fin q))) (lit 0.5)) (lit 1.5)))
         \<and> precipRate lc2 =
           toFixed2 (jmul (rate nozzle)
             (Math_min (Math_max (Math_sqrt (jdiv (Fin p2) (Fin q))) (lit 0.5)) (lit 1.5)))
         \<and> jle (precipRate lc1) (precipRate lc2)
         \<and> (p2 \<le> q / 4 \<longrightarrow> precipRate lc1 = toFixed2 (jmul (rate nozzle) (lit 0.5))
               \<and> precipRate lc2 = toFixed2 (jmul (rate nozzle) (lit 0.5)))
         \<and> (2.25 * q \<le> p2 \<longrightarrow> precipRate lc2 = toFixed2 (jmul (rate nozzle) (lit 1.5)))"
proof -
  let ?c1 = "Math_min (Math_max (Math_sqrt (jdiv (Fin p1) (Fin q))) (lit 0.5)) (lit 1.5)"
  let ?c2 = "Math_min (Math_max (Math_sqrt (jdiv (Fin p2) (Fin q))) (lit 0.5)) (lit 1.5)"
  obtain r where r: "rate nozzle = Fin r" "0 < r" "r \<le> 12" and q: "0 < q"
    using NOZZLE_DATA_entry [OF assms(3)] assms(4) by (auto dest!: isPositiveD)
  have p2: "0 < p2"
    using assms(7,8) by simp
  have 1: "precipRate lc1 = toFixed2 (jmul (rate nozzle) ?c1)"
    using useEffect_precipRate [OF assms(1,3)] calc_precipRate_pressure [OF assms(4,5,7)]
    by simp
  have 2: "precipRate lc2 = toFixed2 (jmul (rate nozzle) ?c2)"
    using useEffect_precipRate [OF assms(2,3)] calc_precipRate_pressure [OF assms(4,6) p2]
    by simp
  obtain c1 c2 where c1: "?c1 = Fin c1" "1 / 2 \<le> c1" "c1 \<le> 3 / 2"
    and c2: "?c2 = Fin c2" "1 / 2 \<le> c2" "c2 \<le> 3 / 2"
    using clampedMultiplier_Fin [OF q assms(7)] clampedMultiplier_Fin [OF q p2] by blast
  have c12: "c1 \<le> c2"
    using clampedMultiplier_mono [OF q assms(7,8)] unfolding c1(1) c2(1) by simp
  have b: "0 \<le> r * c1" "r * c1 \<le> r * c2"
    using r(2) c1(2) c12 by simp_all
  have "r * c2 \<le> 12 * (3 / 2)"
    using r(2,3) c2(2,3) by (intro mult_mono) simp_all
  then have b2: "r * c2 \<le> 18"
    by simp
  obtain y1 where y1: "fl (r * c1) = Fin y1" "0 \<le> y1"
    using fl_between [of 0 18 "r * c1"] b b2 by (auto simp: fl_whole)
  obtain y2 where y2: "fl (r * c2) = Fin y2" "y2 \<le> 18"
    using fl_between [of 0 18 "r * c2"] b b2 by (auto simp: fl_whole)
  have "y1 \<le> y2"
    using fl_mono [OF b] by (simp add: y1(1) y2(1))
  from toFixed2_mono [OF y1(2) this y2(2)]
  have 3: "jle (precipRate lc1) (precipRate lc2)"
    unfolding 1 2 r(1) c1(1) c2(1) by (simp add: y1(1) y2(1))
  have 4: "precipRate lc1 = toFixed2 (jmul (rate nozzle) (lit 0.5))
      \<and> precipRate lc2 = toFixed2 (jmul (rate nozzle) (lit 0.5))"
    if "p2 \<le> q / 4"
  proof -
    from that assms(8) have "p1 \<le> q / 4"
      by simp
    from clampedMultiplier_low [OF q assms(7) this] clampedMultiplier_low [OF q p2 that]
    show ?thesis
      by (simp only: 1 2)
  qed
  have 5: "precipRate lc2 = toFixed2 (jmul (rate nozzle) (lit 1.5))" if "2.25 * q \<le> p2"
  proof -
    from that have "9 / 4 * q \<le> p2"
      by simp
    from clampedMultiplier_high [OF q this] show ?thesis
      by (simp only: 2)
  qed
  from 1 2 3 4 5 show ?thesis
    by blast
qed

text \<open>
  The drip line of base rate 0.35 (optimal pressure 30 PSI): at 5 PSI and at 6 PSI the
  rate is 0.17, the binary64 product \<open>0.35 * 0.5\<close> being just below 0.175; at 120 PSI,
  beyond 2.25 times the optimal pressure, it is 0.52, the product \<open>0.35 * 1.5\<close> being just
  below 0.525.
\<close>

theorem precipRate_pressure_monotone_witness:
  "\<exists>lc1 lc2 lc3.
     useEffect (zone_spray_loam\<lparr>nozzleType := ''Drip Line (0.4 GPH - 12in Spacing)'',
        pressure := Str ''5''\<rparr>) None = Inr (Some lc1)
     \<and> useEffect (zone_spray_loam\<lparr>nozzleType := ''Drip Line (0.4 GPH - 12in Spacing)'',
        pressure := Str ''6''\<rparr>) None = Inr (Some lc2)
     \<and> useEffect (zone_spray_loam\<lparr>nozzleType := ''Drip Line (0.4 GPH - 12in Spacing)'',
        pressure := Str ''120''\<rparr>) None = Inr (Some lc3)
     \<and> Number (Str ''5'') = Fin 5 \<and> Number (Str ''6'') = Fin 6 \<and> Number (Str ''120'') = Fin 120
     \<and> precipRate lc1 = lit 0.17 \<and> precipRate lc2 = lit 0.17 \<and> precipRate lc3 = lit 0.52
     \<and> jle (precipRate lc1) (precipRate lc2) \<and> jle (precipRate lc2) (precipRate lc3)"
proof -
  let ?nozzle = "\<lparr>rate = lit 0.35, label = ''Drip Line (0.4 GPH @ 12in)'', optimalPsi = Fin 30,
      efficiency = lit 0.90\<rparr>"
  let ?fd = "zone_spray_loam\<lparr>nozzleType := ''Drip Line (0.4 GPH - 12in Spacing)''\<rparr>"
  have nz: "map_of NOZZLE_DATA (nozzleType ?fd) = Some ?nozzle"
    by (simp add: NOZZLE_DATA_def)
  have q: "optimalPsi ?nozzle = Fin 30"
    by simp
  have u: "\<exists>lc. useEffect (?fd\<lparr>pressure := v\<rparr>) None = Inr (Some lc)" for v
    by (simp add: zone_spray_loam_def useEffect_def requiredPresent_def nozzleLookup_def
        NOZZLE_DATA_def)
  obtain lc1 lc2 lc3 where e1: "useEffect (?fd\<lparr>pressure := Str ''5''\<rparr>) None = Inr (Some lc1)"
    and e2: "useEffect (?fd\<lparr>pressure := Str ''6''\<rparr>) None = Inr (Some lc2)"
    and e3: "useEffect (?fd\<lparr>pressure := Str ''120''\<rparr>) None = Inr (Some lc3)"
    using u by blast
  have n1: "Number (Str ''5'') = Fin 5" and n2: "Number (Str ''6'') = Fin 6"
    and n3: "Number (Str ''120'') = Fin 120"
    by (simp_all add: Number_def parse_defs fl_eval cong: eval_congs)
  have t: "toFixed2 (jmul (rate ?nozzle) (lit 0.5)) = lit 0.17"
    "toFixed2 (jmul (rate ?nozzle) (lit 1.5)) = lit 0.52"
    by (simp_all add: toFixed2_def lit_values lit_def fl_eval cong: eval_congs)
  have i: "(0::real) < 5" "(5::real) \<le> 6" "(6::real) \<le> 30 / 4"
    and j: "(0::real) < 6" "(6::real) \<le> 120" "2.25 * (30::real) \<le> 120"
    by simp_all
  from precipRate_pressure_monotone [OF e1 e2 nz q n1 n2 i(1,2)] i(3)
  have a: "precipRate lc1 = toFixed2 (jmul (rate ?nozzle) (lit 0.5))
      \<and> precipRate lc2 = toFixed2 (jmul (rate ?nozzle) (lit 0.5))
      \<and> jle (precipRate lc1) (precipRate lc2)"
    by blast
  from precipRate_pressure_monotone [OF e2 e3 nz q n2 n3 j(1,2)] j(3)
  have b: "precipRate lc3 = toFixed2 (jmul (rate ?nozzle) (lit 1.5))
      \<and> jle (precipRate lc2) (precipRate lc3)"
    by blast
  from a [unfolded t] b [unfolded t]
  have "precipRate lc1 = lit 0.17 \<and> precipRate lc2 = lit 0.17 \<and> precipRate lc3 = lit 0.52
      \<and> jle (precipRate lc1) (precipRate lc2) \<and> jle (precipRate lc2) (precipRate lc3)"
    by blast
  with e1 e2 e3 n1 n2 n3 show ?thesis
    by blast
qed

section \<open>Facts about the states of the component\<close>

text \<open>The hook reads nothing but its dependencies.\<close>

lemma useEffect_deps:
  assumes "effectDeps st' = effectDeps st"
  shows "useEffect (InputForm.formData st') (manualCycles st')
           = useEffect (InputForm.formData st) (manualCycles st)"
proof -
  let ?f = "InputForm.formData st" and ?f' = "InputForm.formData st'"
  from assms have eq:
    "nozzleType ?f' = nozzleType ?f" "soilType ?f' = soilType ?f" "slope ?f' = slope ?f"
    "zoneType ?f' = zoneType ?f" "estWeeklyEt ?f' = estWeeklyEt ?f"
    "estWeeklyRain ?f' = estWeeklyRain ?f" "pressure ?f' = pressure ?f"
    "PlantFormData.efficiency ?f' = PlantFormData.efficiency ?f" "sunlight ?f' = sunlight ?f"
    "mowingHeight ?f' = mowingHeight ?f" "manualCycles st' = manualCycles st"
    by (simp_all add: effectDeps_def Let_def)
  show ?thesis
    unfolding useEffect_def requiredPresent_def calculate_def calc_efficiency_def
      calc_netWeeklyInches_def userEt_def sunFactor_def soilInfiltration_def slopeFactor_def
      isSandy_def isTurf_def calc_mowingHeight_def eq
    by (rule refl)
qed

text \<open>
  An event changes the state without touching the result and lets the hook run when a
  dependency changed: a result that was the hook's stays the hook's.
\<close>

lemma event_sync:
  assumes "useEffect (InputForm.formData st) (manualCycles st) = Inr (liveCalc st)"
    and "liveCalc st1 = liveCalc st"
    and "(if effectDeps st1 = effectDeps st then Inr st1 else runEffect st1) = Inr st'"
  shows "useEffect (InputForm.formData st') (manualCycles st') = Inr (liveCalc st')
         \<and> manualCycles st' = manualCycles st1"
proof (cases "effectDeps st1 = effectDeps st")
  case True
  with assms(3) have "st' = st1"
    by simp
  with useEffect_deps [OF True] assms(1,2) show ?thesis
    by simp
next
  case False
  with assms(3) have "runEffect st1 = Inr st'"
    by simp
  then show ?thesis
    by (auto dest!: runEffect_InrD)
qed

text \<open>A cycle count: a whole number, an infinity or \<open>NaN\<close>.\<close>

lemma isInteger_of_int [simp]: "isInteger (Fin (of_int n))"
  by (simp add: isInteger_def)

lemma isIntegerD: "isInteger a \<Longrightarrow> \<exists>n. a = Fin (of_int n)"
  by (cases a) (auto simp: isInteger_def)

lemma Math_ceil_whole: "Math_ceil a = NaN \<or> Math_ceil a = PInf \<or> Math_ceil a = NInf \<or> isInteger (Math_ceil a)"
  by (cases a) (simp_all add: Math_ceil_def)

lemma autoCycles_whole:
  "autoCycles s d m = NaN \<or> autoCycles s d m = PInf \<or> autoCycles s d m = NInf
   \<or> isInteger (autoCycles s d m)"
proof -
  have "isInteger (Fin 2)"
    using isInteger_of_int [of 2] by simp
  then show ?thesis
    using Math_ceil_whole [of "jdiv d m"] by (auto simp: autoCycles_def Let_def)
qed

lemma calculate_cyclesPerDay:
  "cyclesPerDay (calculate nozzle fd mc) =
     (case mc of
        Some m \<Rightarrow> m
      | None \<Rightarrow>
          autoCycles (isSandy fd) (dailyRunTime (calculate nozzle fd mc))
            (maxRunTime (calculate nozzle fd mc)))"
  by (cases mc) (simp_all add: calculate_def Let_def)

text \<open>The whole numbers from 1 to 10 are binary64 values.\<close>

lemma fl_small_int:
  assumes "1 \<le> m" and "m \<le> 10"
  shows "fl (of_int m) = Fin (of_int m)"
proof -
  from assms have "m = 1 \<or> m = 2 \<or> m = 3 \<or> m = 4 \<or> m = 5 \<or> m = 6 \<or> m = 7 \<or> m = 8
      \<or> m = 9 \<or> m = 10"
    by arith
  then show ?thesis
    by (auto simp: fl_whole)
qed

text \<open>The clamp of \<open>handleCycleChange\<close> on the binary64 value of a whole number.\<close>

lemma clamp_whole:
  "Math_max (Fin 1) (Math_min (Fin 10) (fl (of_int m))) = Fin (of_int (max 1 (min 10 m)))"
proof -
  consider "m \<le> 0" | "1 \<le> m" "m \<le> 10" | "11 \<le> m"
    by linarith
  then show ?thesis
  proof cases
    case 1
    then have "real_of_int m \<le> 0"
      by simp
    from fl_nonpos [OF this] 1 show ?thesis
      by (auto simp: max_def min_def)
  next
    case 2
    then show ?thesis
      by (simp add: fl_small_int max_def min_def)
  next
    case 3
    then have "(10::real) \<le> of_int m"
      by simp
    then have "jle (Fin 10) (fl (of_int m))"
      using fl_at_least [of 10 "of_int m"] by (simp add: fl_whole)
    with 3 show ?thesis
      by (cases "fl (real_of_int m)") (simp_all add: max_def min_def)
  qed
qed

text \<open>The clamp of \<open>handleCycleChange\<close> on a cycle count stepped by one.\<close>

lemma newValue_range:
  assumes "c = NaN \<or> c = PInf \<or> c = NInf \<or> isInteger c"
    and "increment = Fin 1 \<or> increment = Fin (- 1)"
  shows "Math_max (Fin 1) (Math_min (Fin 10) (jadd c increment)) = NaN
         \<or> (isInteger (Math_max (Fin 1) (Math_min (Fin 10) (jadd c increment)))
            \<and> jle (Fin 1) (Math_max (Fin 1) (Math_min (Fin 10) (jadd c increment)))
            \<and> jle (Math_max (Fin 1) (Math_min (Fin 10) (jadd c increment))) (Fin 10))"
proof -
  from assms(2) obtain k :: int where k: "increment = Fin (of_int k)"
    by (metis of_int_1 of_int_minus)
  from assms(1) consider "c = NaN" | "c = PInf" | "c = NInf" | n where "c = Fin (of_int n)"
    by (auto dest: isIntegerD)
  then show ?thesis
  proof cases
    case 4
    have "jadd c increment = fl (of_int (n + k))"
      by (simp add: 4 k)
    then show ?thesis
      by (simp only: clamp_whole) simp
  qed (simp_all add: k jadd_def Math_max_def Math_min_def isInteger_def)
qed

lemma useEffect_cyclesPerDay_whole:
  assumes "useEffect fd mc = Inr (Some lc)"
    and "\<forall>m. mc = Some m \<longrightarrow> m = NaN \<or> isInteger m"
  shows "cyclesPerDay lc = NaN \<or> cyclesPerDay lc = PInf \<or> cyclesPerDay lc = NInf
         \<or> isInteger (cyclesPerDay lc)"
proof -
  from assms(1) obtain nozzle where lc: "lc = calculate nozzle fd mc"
    by (rule useEffect_SomeD)
  show ?thesis
  proof (cases mc)
    case None
    then show ?thesis
      using autoCycles_whole by (simp add: lc calculate_cyclesPerDay)
  next
    case (Some m)
    with assms(2) show ?thesis
      by (auto simp: lc calculate_cyclesPerDay)
  qed
qed

text \<open>
  In every state of the component the result is the hook's result on the current form
  data and override, and the override is \<open>NaN\<close> or a whole number from 1 to 10.
\<close>

lemma reachable_invariant:
  assumes "reachable st"
  shows "useEffect (InputForm.formData st) (manualCycles st) = Inr (liveCalc st)
         \<and> (\<forall>m. manualCycles st = Some m \<longrightarrow>
               m = NaN \<or> (isInteger m \<and> jle (Fin 1) m \<and> jle m (Fin 10)))"
  using assms
proof (induction rule: reachable.induct)
  case (mount formData0 st)
  then show ?case
    by (auto dest!: runEffect_InrD)
next
  case (change st name_in value_in st')
  have l: "liveCalc (handleChange name_in value_in st) = liveCalc st"
    by (simp add: handleChange_def Let_def)
  from change.hyps(2) have
    "(if effectDeps (handleChange name_in value_in st) = effectDeps st
      then Inr (handleChange name_in value_in st)
      else runEffect (handleChange name_in value_in st)) = Inr st'"
    by (simp add: changeEvent_def Let_def)
  from event_sync [OF _ l this] change.IH show ?case
    by (auto simp: handleChange_manualCycles split: if_splits)
next
  case (cycle st increment st')
  have l: "liveCalc (handleCycleChange increment st) = liveCalc st"
    by (simp add: handleCycleChange_def Let_def split: option.splits)
  from cycle.hyps(3) have
    "(if effectDeps (handleCycleChange increment st) = effectDeps st
      then Inr (handleCycleChange increment st)
      else runEffect (handleCycleChange increment st)) = Inr st'"
    by (simp add: cycleEvent_def Let_def)
  from event_sync [OF _ l this] cycle.IH
  have s: "useEffect (InputForm.formData st') (manualCycles st') = Inr (liveCalc st')"
    and m: "manualCycles st' = manualCycles (handleCycleChange increment st)"
    by blast+
  have "m = NaN \<or> (isInteger m \<and> jle (Fin 1) m \<and> jle m (Fin 10))"
    if "manualCycles (handleCycleChange increment st) = Some m" for m
  proof (cases "liveCalc st")
    case None
    with that cycle.IH show ?thesis
      by (simp add: handleCycleChange_def)
  next
    case (Some lc)
    let ?current = "case manualCycles st of Some m \<Rightarrow> m | None \<Rightarrow> cyclesPerDay lc"
    from cycle.IH Some have "useEffect (InputForm.formData st) (manualCycles st) = Inr (Some lc)"
      by simp
    moreover from cycle.IH have "\<forall>m. manualCycles st = Some m \<longrightarrow> m = NaN \<or> isInteger m"
      by blast
    ultimately have "cyclesPerDay lc = NaN \<or> cyclesPerDay lc = PInf \<or> cyclesPerDay lc = NInf
         \<or> isInteger (cyclesPerDay lc)"
      by (rule useEffect_cyclesPerDay_whole)
    with cycle.IH have "?current = NaN \<or> ?current = PInf \<or> ?current = NInf \<or> isInteger ?current"
      by (auto split: option.splits)
    from newValue_range [OF this cycle.hyps(2)] that Some show ?thesis
      by (simp add: handleCycleChange_def Let_def)
  qed
  with s m show ?case
    by simp
next
  case (props st formData' st')
  have l: "liveCalc (st\<lparr>InputForm.formData := formData'\<rparr>) = liveCalc st"
    by simp
  from props.hyps(2) have
    "(if effectDeps (st\<lparr>InputForm.formData := formData'\<rparr>) = effectDeps st
      then Inr (st\<lparr>InputForm.formData := formData'\<rparr>)
      else runEffect (st\<lparr>InputForm.formData := formData'\<rparr>)) = Inr st'"
    by (simp add: propsEvent_def Let_def)
  from event_sync [OF _ l this] props.IH show ?case
    by auto
qed

section \<open>Facts about the automatic cycle count\<close>

lemma Math_max_zero: "Math_max (Fin 0) a = NaN \<or> isNonNegative (Math_max (Fin 0) a)"
  by (cases a) (simp_all add: Math_max_def isNonNegative_def)

lemma Math_ceil_nonneg: "a = NaN \<or> isNonNegative a \<Longrightarrow> Math_ceil a = NaN \<or> isNonNegative (Math_ceil a)"
  by (cases a) (auto simp: Math_ceil_def isNonNegative_def)

lemma jdiv_nonneg:
  assumes "a = NaN \<or> isNonNegative a" and "b = NaN \<or> isNonNegative b"
  shows "jdiv a b = NaN \<or> isNonNegative (jdiv a b)"
proof (cases a)
  case (Fin x)
  with assms(1) have x: "0 \<le> x"
    by (simp add: isNonNegative_def)
  show ?thesis
  proof (cases b)
    case (Fin y)
    with assms(2) have y: "0 \<le> y"
      by (simp add: isNonNegative_def)
    show ?thesis
    proof (cases "y = 0")
      case True
      then show ?thesis
        using x by (simp add: \<open>a = Fin x\<close> Fin jdiv_def isNonNegative_def)
    next
      case False
      with x y have "0 \<le> x / y"
        by simp
      then show ?thesis
        using False by (simp add: \<open>a = Fin x\<close> Fin isNonNegative_fl)
    qed
  qed (use assms(2) Fin in \<open>simp_all add: jdiv_def isNonNegative_def\<close>)
next
  case PInf
  with assms(2) show ?thesis
    by (cases b) (simp_all add: jdiv_def isNonNegative_def)
qed (use assms(1) in \<open>simp_all add: jdiv_def isNonNegative_def\<close>)

lemma jmul_60_nonneg:
  "a = NaN \<or> isNonNegative a \<Longrightarrow> jmul a (Fin 60) = NaN \<or> isNonNegative (jmul a (Fin 60))"
proof (cases a)
  case (Fin x)
  assume "a = NaN \<or> isNonNegative a"
  with Fin have "0 \<le> x * 60"
    by (simp add: isNonNegative_def)
  then show ?thesis
    by (simp add: Fin isNonNegative_fl)
qed (simp_all add: jmul_def isNonNegative_def)

lemma calc_netWeeklyInches_nonneg:
  "calc_netWeeklyInches fd = NaN \<or> isNonNegative (calc_netWeeklyInches fd)"
  by (simp add: calc_netWeeklyInches_def Let_def Math_max_zero)

lemma calc_weeklyTotalMinutes_nonneg:
  assumes "n = NaN \<or> isNonNegative n"
  shows "calc_weeklyTotalMinutes n e = NaN \<or> isNonNegative (calc_weeklyTotalMinutes n e)"
proof (cases "jgt e (Fin 0)")
  case True
  then have "e = NaN \<or> isNonNegative e"
    by (auto dest!: jgt_zeroD simp: isNonNegative_def)
  from jdiv_nonneg [OF assms this]
  have "Math_ceil (jmul (jdiv n e) (Fin 60)) = NaN
        \<or> isNonNegative (Math_ceil (jmul (jdiv n e) (Fin 60)))"
    by (intro Math_ceil_nonneg jmul_60_nonneg)
  with True show ?thesis
    by (simp add: calc_weeklyTotalMinutes_def)
next
  case False
  then show ?thesis
    by (simp add: calc_weeklyTotalMinutes_def isNonNegative_def)
qed

text \<open>The suggested frequency is a number from 1 to 7.\<close>

lemma calc_suggestedFrequency_range:
  "\<exists>k. calc_suggestedFrequency sandy turf mh n = Fin k \<and> 1 \<le> k \<and> k \<le> 7"
proof -
  obtain f where f: "baseFrequency sandy n = Fin f" "f \<in> {2, 3, 4, 5}"
    using baseFrequency_range [of sandy n] by auto
  then show ?thesis
    by (auto simp: calc_suggestedFrequency_def mowingConstraint_def)
qed

lemma calc_dailyRunTime_nonneg:
  assumes "w = NaN \<or> isNonNegative w" and "f = Fin k" and "1 \<le> k"
  shows "calc_dailyRunTime w f = NaN \<or> isNonNegative (calc_dailyRunTime w f)"
proof -
  have "f = NaN \<or> isNonNegative f"
    using assms(2,3) by (simp add: isNonNegative_def)
  from jdiv_nonneg [OF assms(1) this] have "Math_ceil (jdiv w f) = NaN \<or> isNonNegative (Math_ceil (jdiv w f))"
    by (rule Math_ceil_nonneg)
  then show ?thesis
    using assms(2,3) by (simp add: calc_dailyRunTime_def jgt_def)
qed

text \<open>The runoff ceiling is at least 3 minutes, or no number.\<close>

lemma calc_maxRunTime_nonneg:
  "calc_maxRunTime p s f = NaN \<or> isNonNegative (calc_maxRunTime p s f)"
proof -
  have "Math_max (Fin 3) x = NaN \<or> isNonNegative (Math_max (Fin 3) x)" for x
    by (cases x) (simp_all add: Math_max_def isNonNegative_def)
  then show ?thesis
    by (simp add: calc_maxRunTime_def Let_def isNonNegative_def)
qed

lemma autoCycles_nonneg:
  assumes "d = NaN \<or> isNonNegative d" and "m = NaN \<or> isNonNegative m"
  shows "autoCycles sandy d m = NaN \<or> isNonNegative (autoCycles sandy d m)"
    and "sandy \<Longrightarrow> autoCycles sandy d m = NaN \<or> jle (Fin 2) (autoCycles sandy d m)"
proof -
  from jdiv_nonneg [OF assms]
  have c: "Math_ceil (jdiv d m) = NaN \<or> isNonNegative (Math_ceil (jdiv d m))"
    by (rule Math_ceil_nonneg)
  then show "autoCycles sandy d m = NaN \<or> isNonNegative (autoCycles sandy d m)"
    by (auto simp: autoCycles_def Let_def isNonNegative_def)
  show "autoCycles sandy d m = NaN \<or> jle (Fin 2) (autoCycles sandy d m)" if sandy
    using that c by (cases "Math_ceil (jdiv d m)") (auto simp: autoCycles_def Let_def isNonNegative_def)
qed

lemma calculate_automatic:
  "cyclesPerDay (calculate nozzle fd None) = NaN
     \<or> isNonNegative (cyclesPerDay (calculate nozzle fd None))"
  "isSandy fd \<Longrightarrow> cyclesPerDay (calculate nozzle fd None) = NaN
     \<or> jle (Fin 2) (cyclesPerDay (calculate nozzle fd None))"
proof -
  let ?lc = "calculate nozzle fd None"
  obtain k where k: "suggestedFrequency ?lc = Fin k" "1 \<le> k"
    using calc_suggestedFrequency_range [of "isSandy fd" "isTurf fd" "calc_mowingHeight fd"
        "calc_netWeeklyInches fd"]
    by (auto simp: calculate_suggestedFrequency)
  have w: "weeklyTotalMinutes ?lc = NaN \<or> isNonNegative (weeklyTotalMinutes ?lc)"
    using calc_weeklyTotalMinutes_nonneg [OF calc_netWeeklyInches_nonneg]
    by (simp add: calculate_def Let_def)
  have "dailyRunTime ?lc = calc_dailyRunTime (weeklyTotalMinutes ?lc) (suggestedFrequency ?lc)"
    by (simp add: calculate_def Let_def)
  with calc_dailyRunTime_nonneg [OF w k]
  have d: "dailyRunTime ?lc = NaN \<or> isNonNegative (dailyRunTime ?lc)"
    by simp
  have m: "maxRunTime ?lc = NaN \<or> isNonNegative (maxRunTime ?lc)"
    by (simp only: calculate_maxRunTime calc_maxRunTime_nonneg)
  have c: "cyclesPerDay ?lc = autoCycles (isSandy fd) (dailyRunTime ?lc) (maxRunTime ?lc)"
    by (simp add: calculate_cyclesPerDay)
  show "cyclesPerDay ?lc = NaN \<or> isNonNegative (cyclesPerDay ?lc)"
    unfolding c by (rule autoCycles_nonneg [OF d m])
  show "cyclesPerDay ?lc = NaN \<or> jle (Fin 2) (cyclesPerDay ?lc)" if "isSandy fd"
    unfolding c using that by (simp add: autoCycles_nonneg [OF d m])
qed

section \<open>The range of the cycle count\<close>

text \<open>
  C1 as stated fails. On the automatic path the spray zone on loam with 5 inches of
  weekly rain has no water need and gets 0 cycles, and the same nozzle on clay with a
  weekly evapotranspiration of 10 inches gets 34 cycles. With a manual override the
  count can be \<open>NaN\<close>: when the weekly rain is not a number the automatic count is
  \<open>NaN\<close>, and a click on the plus button stores \<open>NaN\<close> as the override.
\<close>

theorem cyclesPerDay_range_counterexample:
  "map_sum id (map_option cyclesPerDay)
      (useEffect (zone_spray_loam\<lparr>estWeeklyRain := Some ''5''\<rparr>) None) = Inr (Some (Fin 0))
   \<and> map_sum id (map_option cyclesPerDay)
      (useEffect (zone_spray_loam\<lparr>soilType := ''Clay'', estWeeklyEt := Some ''10''\<rparr>) None)
        = Inr (Some (Fin 34))
   \<and> runEffect \<lparr>InputForm.formData = zone_nan_rain, liveCalc = None, manualCycles = None\<rparr>
        = Inr form_nan_mounted
   \<and> cycleEvent (Fin 1) form_nan_mounted = Inr form_nan_clicked
   \<and> manualCycles form_nan_clicked = Some NaN
   \<and> map_option cyclesPerDay (liveCalc form_nan_clicked) = Some NaN"
proof (intro conjI)
  show "map_sum id (map_option cyclesPerDay)
      (useEffect (zone_spray_loam\<lparr>estWeeklyRain := Some ''5''\<rparr>) None) = Inr (Some (Fin 0))"
    by (simp add: zone_spray_loam_def eval_defs cong: eval_congs)
  show "map_sum id (map_option cyclesPerDay)
      (useEffect (zone_spray_loam\<lparr>soilType := ''Clay'', estWeeklyEt := Some ''10''\<rparr>) None)
        = Inr (Some (Fin 34))"
    by (simp add: zone_spray_loam_def eval_defs cong: eval_congs)
  have r: "requiredPresent zone_nan_rain" "nozzleType zone_nan_rain = ''Fixed Spray (Generic)''"
    by (simp_all add: zone_nan_rain_def zone_spray_loam_def requiredPresent_def)
  show "runEffect \<lparr>InputForm.formData = zone_nan_rain, liveCalc = None, manualCycles = None\<rparr>
        = Inr form_nan_mounted"
    by (simp add: runEffect_def useEffect_spray r form_nan_mounted_def)
  have c: "cyclesPerDay (calculate spray_nozzle zone_nan_rain None) = NaN"
    by (simp add: zone_nan_rain_def zone_spray_loam_def spray_nozzle_def eval_defs
        cong: eval_congs)
  have h: "handleCycleChange (Fin 1) form_nan_mounted = form_nan_mounted\<lparr>manualCycles := Some NaN\<rparr>"
    using c
    by (simp add: handleCycleChange_def form_nan_mounted_def Let_def jadd_def Math_max_def
        Math_min_def)
  show "cycleEvent (Fin 1) form_nan_mounted = Inr form_nan_clicked"
    unfolding cycleEvent_def h
    by (simp add: effectDeps_def runEffect_def useEffect_spray r form_nan_mounted_def
        form_nan_clicked_def)
  show "manualCycles form_nan_clicked = Some NaN"
    by (simp add: form_nan_clicked_def)
  show "map_option cyclesPerDay (liveCalc form_nan_clicked) = Some NaN"
    by (simp add: form_nan_clicked_def)
qed

text \<open>
  C1, as amended. In every state of the component that shows a result: with a manual
  override the cycle count of the result is the override, and whenever that is not
  \<open>NaN\<close> it is a whole number from 1 to 10; without an override the count is the
  automatic one, \<open>ceil(dailyRunTime / maxRunTime)\<close> raised to 2 on sandy soil, and
  whenever that is a finite number it is a whole number of at least 0, and of at least 2
  on sandy soil. The automatic count has no upper bound of 10.
\<close>

theorem cyclesPerDay_range:
  assumes "reachable st" and "liveCalc st = Some lc"
  shows "(\<forall>m. manualCycles st = Some m \<longrightarrow>
            cyclesPerDay lc = m
            \<and> (m = NaN \<or> (isInteger m \<and> jle (Fin 1) m \<and> jle m (Fin 10))))
         \<and> (manualCycles st = None \<longrightarrow>
              cyclesPerDay lc =
                autoCycles (isSandy (InputForm.formData st)) (dailyRunTime lc) (maxRunTime lc)
              \<and> (cyclesPerDay lc = NaN \<or> cyclesPerDay lc = PInf
                  \<or> (isInteger (cyclesPerDay lc) \<and> jle (Fin 0) (cyclesPerDay lc)))
              \<and> (isSandy (InputForm.formData st) \<longrightarrow>
                    cyclesPerDay lc = NaN \<or> jle (Fin 2) (cyclesPerDay lc)))"
proof -
  let ?fd = "InputForm.formData st"
  from reachable_invariant [OF assms(1)] assms(2) have
    u: "useEffect ?fd (manualCycles st) = Inr (Some lc)" and
    r: "\<forall>m. manualCycles st = Some m \<longrightarrow>
          m = NaN \<or> (isInteger m \<and> jle (Fin 1) m \<and> jle m (Fin 10))"
    by simp_all
  from u obtain nozzle where lc: "lc = calculate nozzle ?fd (manualCycles st)"
    by (rule useEffect_SomeD)
  have 1: "cyclesPerDay lc = m
      \<and> (m = NaN \<or> (isInteger m \<and> jle (Fin 1) m \<and> jle m (Fin 10)))"
    if "manualCycles st = Some m" for m
    using that r by (simp add: lc calculate_cyclesPerDay)
  have 2: "cyclesPerDay lc = autoCycles (isSandy ?fd) (dailyRunTime lc) (maxRunTime lc)
      \<and> (cyclesPerDay lc = NaN \<or> cyclesPerDay lc = PInf
          \<or> (isInteger (cyclesPerDay lc) \<and> jle (Fin 0) (cyclesPerDay lc)))
      \<and> (isSandy ?fd \<longrightarrow> cyclesPerDay lc = NaN \<or> jle (Fin 2) (cyclesPerDay lc))"
    if n: "manualCycles st = None"
  proof -
    have a: "cyclesPerDay lc = autoCycles (isSandy ?fd) (dailyRunTime lc) (maxRunTime lc)"
      by (simp add: lc n calculate_cyclesPerDay)
    have w: "cyclesPerDay lc = NaN \<or> cyclesPerDay lc = PInf \<or> cyclesPerDay lc = NInf
        \<or> isInteger (cyclesPerDay lc)"
      unfolding a by (rule autoCycles_whole)
    have g: "cyclesPerDay lc = NaN \<or> isNonNegative (cyclesPerDay lc)"
      using calculate_automatic(1) [of nozzle ?fd] by (simp add: lc n)
    have s: "cyclesPerDay lc = NaN \<or> jle (Fin 2) (cyclesPerDay lc)" if "isSandy ?fd"
      using calculate_automatic(2) [OF that, of nozzle] by (simp add: lc n)
    from w g have "cyclesPerDay lc = NaN \<or> cyclesPerDay lc = PInf
          \<or> (isInteger (cyclesPerDay lc) \<and> jle (Fin 0) (cyclesPerDay lc))"
      by (auto simp: isNonNegative_def)
    with a s show ?thesis
      by blast
  qed
  from 1 2 show ?thesis
    by blast
qed

text \<open>
  The spray zone on clay with a weekly evapotranspiration of 10 inches: after the first
  render the automatic count is 34; one click on the plus button stores the override 10,
  and the count of the new result is 10.
\<close>

theorem cyclesPerDay_range_witness:
  "(\<exists>st lc. reachable st \<and> liveCalc st = Some lc \<and> manualCycles st = None
       \<and> cyclesPerDay lc = Fin 34 \<and> isInteger (cyclesPerDay lc) \<and> jle (Fin 0) (cyclesPerDay lc))
   \<and> (\<exists>st lc. reachable st \<and> liveCalc st = Some lc \<and> manualCycles st = Some (Fin 10)
       \<and> cyclesPerDay lc = Fin 10 \<and> isInteger (Fin 10))"
proof -
  let ?fd = "zone_spray_loam\<lparr>soilType := ''Clay'', estWeeklyEt := Some ''10''\<rparr>"
  have r: "requiredPresent ?fd" "nozzleType ?fd = ''Fixed Spray (Generic)''"
    by (simp_all add: zone_spray_loam_def requiredPresent_def)
  have c: "cyclesPerDay (calculate spray_nozzle ?fd None) = Fin 34"
    by (simp add: zone_spray_loam_def spray_nozzle_def eval_defs cong: eval_congs)
  have "\<exists>s0 lc0. runEffect \<lparr>InputForm.formData = ?fd, liveCalc = None, manualCycles = None\<rparr> = Inr s0
      \<and> liveCalc s0 = Some lc0 \<and> manualCycles s0 = None \<and> cyclesPerDay lc0 = Fin 34
      \<and> InputForm.formData s0 = ?fd"
    using c by (simp add: runEffect_def useEffect_spray r)
  then obtain s0 lc0 where
    m: "runEffect \<lparr>InputForm.formData = ?fd, liveCalc = None, manualCycles = None\<rparr> = Inr s0"
    and l0: "liveCalc s0 = Some lc0" and n0: "manualCycles s0 = None"
    and c0: "cyclesPerDay lc0 = Fin 34" and f0: "InputForm.formData s0 = ?fd"
    by blast
  have r0: "reachable s0"
    using m by (rule reachable.mount)
  have h: "handleCycleChange (Fin 1) s0 = s0\<lparr>manualCycles := Some (Fin 10)\<rparr>"
    by (simp add: handleCycleChange_def l0 n0 c0 Let_def fl_eval cong: eval_congs)
  have "\<exists>s1 lc1. cycleEvent (Fin 1) s0 = Inr s1 \<and> liveCalc s1 = Some lc1
      \<and> manualCycles s1 = Some (Fin 10)"
    unfolding cycleEvent_def h
    by (simp add: effectDeps_def n0 f0 runEffect_def useEffect_spray r)
  then obtain s1 lc1 where e: "cycleEvent (Fin 1) s0 = Inr s1"
    and l1: "liveCalc s1 = Some lc1" and n1: "manualCycles s1 = Some (Fin 10)"
    by blast
  have r1: "reachable s1"
    using r0 _ e by (rule reachable.cycle) simp
  have "manualCycles s0 = None \<longrightarrow>
      cyclesPerDay lc0 = NaN \<or> cyclesPerDay lc0 = PInf
      \<or> (isInteger (cyclesPerDay lc0) \<and> jle (Fin 0) (cyclesPerDay lc0))"
    using cyclesPerDay_range [OF r0 l0] by blast
  with n0 c0 have a: "isInteger (cyclesPerDay lc0) \<and> jle (Fin 0) (cyclesPerDay lc0)"
    by auto
  from cyclesPerDay_range [OF r1 l1] n1
  have b: "cyclesPerDay lc1 = Fin 10 \<and> isInteger (Fin 10)"
    by simp
  from r0 l0 n0 c0 a r1 l1 n1 b show ?thesis
    by blast
qed

section \<open>The required fields\<close>

text \<open>Without one of the four required fields the hook stores \<open>null\<close> and raises nothing.\<close>

lemma useEffect_absent: "\<not> requiredPresent fd \<Longrightarrow> useEffect fd mc = Inr None"
  by (simp add: useEffect_def)

lemma useEffect_produced_present: "useEffect fd mc = Inr (Some lc) \<Longrightarrow> requiredPresent fd"
  by (erule useEffect_SomeD)

text \<open>With the four present, the nozzle lookup decides between a result and the error.\<close>

lemma useEffect_known_nozzle:
  "requiredPresent fd \<Longrightarrow> map_of NOZZLE_DATA (nozzleType fd) = Some nozzle
   \<Longrightarrow> useEffect fd mc = Inr (Some (calculate nozzle fd mc))"
  by (simp add: useEffect_def nozzleLookup_def)

lemma useEffect_unknown_nozzle:
  "requiredPresent fd \<Longrightarrow> nozzleLookup (nozzleType fd) = None
   \<Longrightarrow> useEffect fd mc = Inl TypeError"
  by (simp add: useEffect_def)

text \<open>A value of the nozzle select is empty or a key of the nozzle table.\<close>

lemma nozzleOptions_member:
  "k \<in> set nozzleOptions \<longleftrightarrow> k = [] \<or> (\<exists>nozzle. map_of NOZZLE_DATA k = Some nozzle)"
proof -
  have "(\<exists>nozzle. map_of NOZZLE_DATA k = Some nozzle) \<longleftrightarrow> k \<in> fst ` set NOZZLE_DATA"
    by (metis domIff dom_map_of_conv_image_fst not_Some_eq)
  then show ?thesis
    by (auto simp: nozzleOptions_def)
qed

lemma useEffect_selectable:
  assumes "List.member nozzleOptions (nozzleType fd)"
  shows "(requiredPresent fd \<longrightarrow> (\<exists>lc. useEffect fd mc = Inr (Some lc)))
         \<and> (\<not> requiredPresent fd \<longrightarrow> useEffect fd mc = Inr None)"
proof (cases "requiredPresent fd")
  case True
  then have "nozzleType fd \<noteq> []"
    by (simp add: requiredPresent_def)
  with assms obtain nozzle where "map_of NOZZLE_DATA (nozzleType fd) = Some nozzle"
    by (auto simp: nozzleOptions_member)
  with True show ?thesis
    by (simp add: useEffect_known_nozzle)
next
  case False
  then show ?thesis
    by (simp add: useEffect_absent)
qed

text \<open>No state of the component shows a result while a required field is missing.\<close>

lemma reachable_absent:
  assumes "reachable st" and "\<not> requiredPresent (InputForm.formData st)"
  shows "liveCalc st = None"
  using reachable_invariant [OF assms(1)] useEffect_absent [OF assms(2), of "manualCycles st"]
  by simp

text \<open>
  C5. For form data whose nozzle type is a value of the nozzle select, the hook produces
  a result exactly when the four required fields are present; when one is missing it
  stores \<open>null\<close>, and it raises no error. The same holds for the form after its first
  render, in every state of the component, and after any input change made in a state
  of the component: the change raises no error, the new state shows a result exactly
  when the four fields of the new form data are present, and when one is missing it
  shows none, not the result of the state before.
\<close>

theorem result_iff_required_present:
  assumes "List.member nozzleOptions (nozzleType fd)"
  shows "((\<exists>lc. useEffect fd mc = Inr (Some lc)) \<longleftrightarrow> requiredPresent fd)
         \<and> (\<not> requiredPresent fd \<longrightarrow> useEffect fd mc = Inr None)
         \<and> (\<exists>st. runEffect \<lparr>InputForm.formData = fd, liveCalc = None, manualCycles = None\<rparr> = Inr st
               \<and> ((\<exists>lc. liveCalc st = Some lc) \<longleftrightarrow> requiredPresent fd))
         \<and> (\<forall>st. reachable st \<and> InputForm.formData st = fd \<longrightarrow>
               ((\<exists>lc. liveCalc st = Some lc) \<longleftrightarrow> requiredPresent fd))
         \<and> (\<forall>st n v. reachable st \<and> InputForm.formData (handleChange n v st) = fd \<longrightarrow>
               (\<exists>st'. changeEvent n v st = Inr st' \<and> InputForm.formData st' = fd
                  \<and> ((\<exists>lc. liveCalc st' = Some lc) \<longleftrightarrow> requiredPresent fd)
                  \<and> (\<not> requiredPresent fd \<longrightarrow> liveCalc st' = None)))"
proof -
  note u = useEffect_selectable [OF assms]
  have 1: "(\<exists>lc. useEffect fd mc = Inr (Some lc)) \<longleftrightarrow> requiredPresent fd"
    using u [of mc] by (auto dest: useEffect_produced_present)
  have 2: "\<not> requiredPresent fd \<longrightarrow> useEffect fd mc = Inr None"
    using u [of mc] by blast
  have s: "\<exists>r. useEffect fd m = Inr r \<and> ((\<exists>lc. r = Some lc) \<longleftrightarrow> requiredPresent fd)" for m
    using u [of m] by (cases "requiredPresent fd") auto
  have 3: "\<exists>st. runEffect \<lparr>InputForm.formData = fd, liveCalc = None, manualCycles = None\<rparr> = Inr st
      \<and> ((\<exists>lc. liveCalc st = Some lc) \<longleftrightarrow> requiredPresent fd)"
    using s [of None] by (auto simp: runEffect_def)
  have 5: "(\<exists>lc. liveCalc st = Some lc) \<longleftrightarrow> requiredPresent fd"
    if a: "reachable st \<and> InputForm.formData st = fd" for st
  proof -
    from a have "useEffect fd (manualCycles st) = Inr (liveCalc st)"
      using reachable_invariant [of st] by auto
    with s [of "manualCycles st"] show ?thesis
      by auto
  qed
  have 4: "\<exists>st'. changeEvent n v st = Inr st' \<and> InputForm.formData st' = fd
      \<and> ((\<exists>lc. liveCalc st' = Some lc) \<longleftrightarrow> requiredPresent fd)
      \<and> (\<not> requiredPresent fd \<longrightarrow> liveCalc st' = None)"
    if a: "reachable st \<and> InputForm.formData (handleChange n v st) = fd" for st n v
  proof -
    let ?st1 = "handleChange n v st"
    from a have f: "InputForm.formData ?st1 = fd"
      by simp
    obtain r where r: "useEffect fd (manualCycles ?st1) = Inr r"
      "(\<exists>lc. r = Some lc) \<longleftrightarrow> requiredPresent fd"
      using s by blast
    have l: "liveCalc ?st1 = liveCalc st"
      by (simp add: handleChange_def Let_def)
    show ?thesis
    proof (cases "effectDeps ?st1 = effectDeps st")
      case True
      from a have "useEffect (InputForm.formData st) (manualCycles st) = Inr (liveCalc st)"
        by (simp add: reachable_invariant)
      with useEffect_deps [OF True] f r(1) have "liveCalc st = r"
        by simp
      with True f l r(2) show ?thesis
        by (auto simp: changeEvent_def Let_def)
    next
      case False
      then have "changeEvent n v st = Inr (?st1\<lparr>liveCalc := r\<rparr>)"
        using r(1) f by (simp add: changeEvent_def runEffect_def Let_def)
      with f r(2) show ?thesis
        by auto
    qed
  qed
  from 1 2 3 5 4 show ?thesis
    by blast
qed

text \<open>
  The form on the spray zone shows a result after its first render. When the soil select
  is set back to its empty option, a required field is missing and the new state shows no
  result.
\<close>

theorem result_iff_required_present_witness:
  "List.member nozzleOptions (nozzleType zone_spray_loam)
   \<and> requiredPresent zone_spray_loam
   \<and> (\<exists>lc. useEffect zone_spray_loam None = Inr (Some lc))
   \<and> reachable form_mounted
   \<and> liveCalc form_mounted \<noteq> None
   \<and> List.member nozzleOptions (nozzleType (zone_spray_loam\<lparr>soilType := []\<rparr>))
   \<and> InputForm.formData (handleChange ''soilType'' [] form_mounted) = zone_spray_loam\<lparr>soilType := []\<rparr>
   \<and> \<not> requiredPresent (zone_spray_loam\<lparr>soilType := []\<rparr>)
   \<and> (\<exists>st'. changeEvent ''soilType'' [] form_mounted = Inr st' \<and> liveCalc st' = None)"
proof -
  have n: "List.member nozzleOptions (nozzleType zone_spray_loam)"
    "List.member nozzleOptions (nozzleType (zone_spray_loam\<lparr>soilType := []\<rparr>))"
    by (simp_all add: nozzleOptions_member zone_spray_loam_def NOZZLE_DATA_def)
  have r: "requiredPresent zone_spray_loam" "\<not> requiredPresent (zone_spray_loam\<lparr>soilType := []\<rparr>)"
    "nozzleType zone_spray_loam = ''Fixed Spray (Generic)''"
    by (simp_all add: zone_spray_loam_def requiredPresent_def)
  have "runEffect \<lparr>InputForm.formData = zone_spray_loam, liveCalc = None, manualCycles = None\<rparr>
     = Inr form_mounted"
    by (simp add: runEffect_def useEffect_spray r form_mounted_def)
  then have m: "reachable form_mounted"
    by (rule reachable.mount)
  have l: "liveCalc form_mounted \<noteq> None"
    by (simp add: form_mounted_def)
  have h: "InputForm.formData (handleChange ''soilType'' [] form_mounted)
      = zone_spray_loam\<lparr>soilType := []\<rparr>"
    by (simp add: handleChange_def setField_def form_mounted_def)
  from result_iff_required_present [OF n(1), of None] r(1)
  have 1: "\<exists>lc. useEffect zone_spray_loam None = Inr (Some lc)"
    by blast
  from result_iff_required_present [OF n(2), of None] m h r(2)
  have 2: "\<exists>st'. changeEvent ''soilType'' [] form_mounted = Inr st' \<and> liveCalc st' = None"
    by blast
  from n r(1,2) 1 m l h 2 show ?thesis
    by blast
qed

section \<open>Unknown lookup keys\<close>




end
